theory Spec2Isabelle
  imports Complex_Main "HOL-Library.Word" "HOL-Library.Monad_Syntax"
begin

unbundle bit_operations_syntax

section \<open>Platform values used by \<open>cloud_init_iso.ts\<close>\<close>

text \<open>
  A \<open>Uint8Array\<close> is a list of bytes. A JavaScript string is a sequence of UTF-16 code
  units. Lengths, offsets and LBAs are non-negative JavaScript numbers far below \<open>2^53\<close>,
  where the arithmetic of the source is exact; they are natural numbers here. The only
  exception a function of this module can raise is the \<open>RangeError\<close> of
  \<open>TypedArray.prototype.set\<close>: it is the value \<open>None\<close>. Failure of the host to allocate
  a buffer is outside the model.
\<close>

type_synonym byte = "8 word"
type_synonym Uint8Array = "byte list"
type_synonym js_string = "16 word list"

text \<open>A string literal of the source (ASCII only) as code units.\<close>

definition js_str :: "string \<Rightarrow> js_string" where
  "js_str s = map (\<lambda>c. of_nat (of_char c)) s"

text \<open>
  \<open>new TextEncoder().encode(s)\<close>: the string is read as UTF-16, every unpaired surrogate
  becomes U+FFFD, and each scalar value is written in UTF-8.
\<close>

fun TextEncoder_encode :: "js_string \<Rightarrow> Uint8Array" where
  "TextEncoder_encode [] = []"
| "TextEncoder_encode (c # cs) =
     (if c < 0x80 then ucast c # TextEncoder_encode cs
      else if c < 0x800 then
        (0xC0 OR ucast (drop_bit 6 c)) # (0x80 OR ucast (c AND 0x3F)) # TextEncoder_encode cs
      else if 0xD800 \<le> c \<and> c \<le> 0xDBFF then
        (case cs of
           [] \<Rightarrow> [0xEF, 0xBF, 0xBD]
         | d # ds \<Rightarrow>
             if 0xDC00 \<le> d \<and> d \<le> 0xDFFF then
               (let cp = (0x10000 :: 32 word) + push_bit 10 (ucast (c - 0xD800))
                           + ucast (d - 0xDC00)
                in (0xF0 OR ucast (drop_bit 18 cp))
                   # (0x80 OR ucast (drop_bit 12 cp AND 0x3F))
                   # (0x80 OR ucast (drop_bit 6 cp AND 0x3F))
                   # (0x80 OR ucast (cp AND 0x3F))
                   # TextEncoder_encode ds)
             else [0xEF, 0xBF, 0xBD] @ TextEncoder_encode cs)
      else if 0xDC00 \<le> c \<and> c \<le> 0xDFFF then [0xEF, 0xBF, 0xBD] @ TextEncoder_encode cs
      else (0xE0 OR ucast (drop_bit 12 c)) # (0x80 OR ucast (drop_bit 6 c AND 0x3F))
           # (0x80 OR ucast (c AND 0x3F)) # TextEncoder_encode cs)"

text \<open>
  The runtime bounds the length of a string: V8, on which this module runs, holds at most
  \<open>2^29 - 24\<close> code units in a string (\<open>2^30 - 25\<close> in earlier releases). Every string the
  module can receive therefore has at most \<open>2^30\<close> code units.
\<close>

definition stringFits :: "js_string \<Rightarrow> bool" where
  "stringFits s = (length s \<le> 2 ^ 30)"

text \<open>
  \<open>target.set(src, off)\<close> copies \<open>src\<close> into \<open>target\<close> from index \<open>off\<close> and throws a
  \<open>RangeError\<close> when \<open>src\<close> does not fit.
\<close>

definition overwrite :: "Uint8Array \<Rightarrow> Uint8Array \<Rightarrow> nat \<Rightarrow> Uint8Array" where
  "overwrite target src off =
     map (\<lambda>i. if off \<le> i \<and> i < off + length src then src ! (i - off) else target ! i)
       [0..<length target]"

definition arr_set :: "Uint8Array \<Rightarrow> Uint8Array \<Rightarrow> nat \<Rightarrow> Uint8Array option" where
  "arr_set target src off =
     (if off + length src \<le> length target then Some (overwrite target src off) else None)"

text \<open>
  \<open>target.fill(v, start, end)\<close> writes \<open>v\<close> at every index from \<open>start\<close> up to but not
  including \<open>end\<close> that exists in \<open>target\<close>. An indexed store \<open>a[i] = v\<close> outside the array is
  ignored, as \<open>a[i := v]\<close> is on a list.
\<close>

definition arr_fill :: "Uint8Array \<Rightarrow> byte \<Rightarrow> nat \<Rightarrow> nat \<Rightarrow> Uint8Array" where
  "arr_fill target v start end =
     map (\<lambda>i. if start \<le> i \<and> i < end then v else target ! i) [0..<length target]"

section \<open>The module \<open>cloud_init_iso.ts\<close>\<close>

definition S :: nat where
  "S = 2048"

text \<open>The \<open>files\<close> table: name and encoded payload, META-DATA before USER-DATA.\<close>

definition files :: "js_string \<Rightarrow> js_string \<Rightarrow> (js_string \<times> Uint8Array) list" where
  "files userData metaData =
     [(js_str ''META-DATA'', TextEncoder_encode metaData),
      (js_str ''USER-DATA'', TextEncoder_encode userData)]"

text \<open>\<open>Math.ceil(data.length / S) || 1\<close>: the quotient is a real number, and \<open>0\<close> is falsy.\<close>

definition sectorCount :: "nat \<Rightarrow> nat" where
  "sectorCount len = (let c = nat \<lceil>real len / real S\<rceil> in if c = 0 then 1 else c)"

text \<open>The loop over \<open>files\<close> that pushes each extent and advances \<open>lba\<close>.\<close>

fun extentsLoop :: "nat \<Rightarrow> nat list \<Rightarrow> Uint8Array list \<Rightarrow> nat \<times> nat list" where
  "extentsLoop lba extents [] = (lba, extents)"
| "extentsLoop lba extents (data # rest) =
     extentsLoop (lba + sectorCount (length data)) (extents @ [lba]) rest"

text \<open>
  \<open>u32b\<close> and \<open>u16b\<close>: the bitwise operators of JavaScript work on the 32-bit integer of
  their operand (its value modulo \<open>2^32\<close>), \<open>>>\<close> is the arithmetic shift, and the array
  constructor keeps the low 8 bits of each element.
\<close>

definition u32b :: "nat \<Rightarrow> Uint8Array" where
  "u32b v = (let w = (of_nat v :: 32 word) in
     [ucast (w AND 0xFF), ucast (signed_drop_bit 8 w AND 0xFF),
      ucast (signed_drop_bit 16 w AND 0xFF), ucast (signed_drop_bit 24 w AND 0xFF),
      ucast (signed_drop_bit 24 w AND 0xFF), ucast (signed_drop_bit 16 w AND 0xFF),
      ucast (signed_drop_bit 8 w AND 0xFF), ucast (w AND 0xFF)])"

definition u16b :: "nat \<Rightarrow> Uint8Array" where
  "u16b v = (let w = (of_nat v :: 32 word) in
     [ucast (w AND 0xFF), ucast (signed_drop_bit 8 w AND 0xFF),
      ucast (signed_drop_bit 8 w AND 0xFF), ucast (w AND 0xFF)])"

text \<open>
  \<open>dirRecord\<close>. The counter \<open>i\<close> of the source takes the values 0, 1, 2, 10, 18, ..., 33
  in turn; each store below is at the value \<open>i\<close> has there. A byte store keeps the value
  modulo 256.
\<close>

definition dirRecord :: "Uint8Array \<Rightarrow> bool \<Rightarrow> nat \<Rightarrow> nat \<Rightarrow> Uint8Array option" where
  "dirRecord nameBytes isDir extentLba dataLen = do {
     let nl = length nameBytes;
     let rec = replicate (33 + nl + (if nl mod 2 = 0 then 1 else 0)) (0 :: byte);
     let rec = rec[0 := of_nat (length rec)];
     let rec = rec[1 := 0];
     rec \<leftarrow> arr_set rec (u32b extentLba) 2;
     rec \<leftarrow> arr_set rec (u32b dataLen) 10;
     let rec = rec[18 := 126];
     let rec = rec[19 := 2];
     let rec = rec[20 := 21];
     let rec = rec[21 := 0];
     let rec = rec[22 := 0];
     let rec = rec[23 := 0];
     let rec = rec[24 := 0];
     let rec = rec[25 := (if isDir then 2 else 0)];
     let rec = rec[26 := 0];
     let rec = rec[27 := 0];
     rec \<leftarrow> arr_set rec (u16b 1) 28;
     let rec = rec[32 := of_nat nl];
     arr_set rec nameBytes 33
   }"

text \<open>
  The loop that appends one record per file to \<open>rootDir\<close>; the state is \<open>rootDir\<close> and
  \<open>doff\<close>, and the index list is \<open>[0..<files.length]\<close>. \<open>extents\<close> has one entry per file,
  so \<open>extents[i]\<close> is always defined.
\<close>

fun rootDirLoop ::
  "(js_string \<times> Uint8Array) list \<Rightarrow> nat list \<Rightarrow> nat list \<Rightarrow> Uint8Array \<times> nat
     \<Rightarrow> (Uint8Array \<times> nat) option" where
  "rootDirLoop fs extents [] (rootDir, doff) = Some (rootDir, doff)"
| "rootDirLoop fs extents (i # is) (rootDir, doff) = do {
     rec \<leftarrow> dirRecord (TextEncoder_encode (fst (fs ! i))) False (extents ! i)
              (length (snd (fs ! i)));
     rootDir \<leftarrow> arr_set rootDir rec doff;
     rootDirLoop fs extents is (rootDir, doff + length rec)
   }"

text \<open>The loop over the four date fields of the volume descriptor.\<close>

fun datesLoop :: "Uint8Array \<Rightarrow> nat list \<Rightarrow> Uint8Array \<Rightarrow> Uint8Array option" where
  "datesLoop d16 [] pvd = Some pvd"
| "datesLoop d16 (off # offs) pvd = do {
     pvd \<leftarrow> arr_set pvd d16 off;
     datesLoop d16 offs (pvd[off + 16 := 0])
   }"

text \<open>The primary volume descriptor \<open>pvd\<close>, from \<open>totalSectors\<close> and \<open>dotRec\<close>.\<close>

definition mk_pvd :: "nat \<Rightarrow> Uint8Array \<Rightarrow> Uint8Array option" where
  "mk_pvd totalSectors dotRec = do {
     let pvd = replicate S (0 :: byte);
     let pvd = pvd[0 := 1];
     pvd \<leftarrow> arr_set pvd (TextEncoder_encode (js_str ''CD001'')) 1;
     let pvd = pvd[6 := 1];
     let pvd = arr_fill pvd 0x20 8 40;
     pvd \<leftarrow> arr_set pvd (TextEncoder_encode (js_str ''CIDATA'')) 40;
     let pvd = arr_fill pvd 0x20 46 72;
     pvd \<leftarrow> arr_set pvd (u32b totalSectors) 80;
     pvd \<leftarrow> arr_set pvd (u16b 1) 120;
     pvd \<leftarrow> arr_set pvd (u16b 1) 124;
     pvd \<leftarrow> arr_set pvd (u16b S) 128;
     pvd \<leftarrow> arr_set pvd (u32b 0) 132;
     pvd \<leftarrow> arr_set pvd dotRec 156;
     let pvd = arr_fill pvd 0x20 190 813;
     let d16 = TextEncoder_encode (js_str ''0000000000000000'');
     pvd \<leftarrow> datesLoop d16 [813, 830, 847, 864] pvd;
     Some (pvd[881 := 1])
   }"

text \<open>The volume descriptor set terminator \<open>vdst\<close>.\<close>

definition mk_vdst :: "Uint8Array option" where
  "mk_vdst = do {
     let vdst = replicate S (0 :: byte);
     let vdst = vdst[0 := 255];
     vdst \<leftarrow> arr_set vdst (TextEncoder_encode (js_str ''CD001'')) 1;
     Some (vdst[6 := 1])
   }"

text \<open>
  The loop that copies each payload to \<open>extents[i] * S\<close>. The buffer \<open>iso\<close> of the source
  is \<open>isoArr\<close> here.
\<close>

fun copyLoop ::
  "(js_string \<times> Uint8Array) list \<Rightarrow> nat list \<Rightarrow> nat list \<Rightarrow> Uint8Array
     \<Rightarrow> Uint8Array option" where
  "copyLoop fs extents [] isoArr = Some isoArr"
| "copyLoop fs extents (i # is) isoArr = do {
     isoArr \<leftarrow> arr_set isoArr (snd (fs ! i)) (extents ! i * S);
     copyLoop fs extents is isoArr
   }"

definition makeCloudInitIso :: "js_string \<Rightarrow> js_string \<Rightarrow> Uint8Array option" where
  "makeCloudInitIso userData metaData = do {
     let fs = files userData metaData;
     let (lba, extents) = extentsLoop 19 [] (map snd fs);
     let totalSectors = lba;
     dotRec \<leftarrow> dirRecord [0x00] True 18 S;
     dotdotRec \<leftarrow> dirRecord [0x01] True 18 S;
     let rootDir = replicate S (0 :: byte);
     rootDir \<leftarrow> arr_set rootDir dotRec 0;
     rootDir \<leftarrow> arr_set rootDir dotdotRec (length dotRec);
     (rootDir, doff) \<leftarrow> rootDirLoop fs extents [0..<length fs]
                          (rootDir, length dotRec + length dotdotRec);
     pvd \<leftarrow> mk_pvd totalSectors dotRec;
     vdst \<leftarrow> mk_vdst;
     let isoArr = replicate (totalSectors * S) (0 :: byte);
     isoArr \<leftarrow> arr_set isoArr pvd (16 * S);
     isoArr \<leftarrow> arr_set isoArr vdst (17 * S);
     isoArr \<leftarrow> arr_set isoArr rootDir (18 * S);
     copyLoop fs extents [0..<length fs] isoArr
   }"

text \<open>The values of \<open>totalSectors\<close> and \<open>extents\<close> that \<open>makeCloudInitIso\<close> computes.\<close>

definition planTotalSectors :: "js_string \<Rightarrow> js_string \<Rightarrow> nat" where
  "planTotalSectors userData metaData =
     fst (extentsLoop 19 [] (map snd (files userData metaData)))"

definition planExtents :: "js_string \<Rightarrow> js_string \<Rightarrow> nat list" where
  "planExtents userData metaData =
     snd (extentsLoop 19 [] (map snd (files userData metaData)))"

section \<open>The readers of the test suite\<close>

text \<open>
  The tests of the repository read an image back with \<open>u32le\<close>, \<open>u16le\<close>, \<open>u16be\<close>,
  \<open>parseRootDir\<close> and \<open>fileContent\<close>; their constant \<open>SECTOR\<close> is \<open>S\<close>. A read past the end
  of an array gives \<open>undefined\<close>, which the bitwise operators take as 0. Names and contents
  are kept as bytes here, before \<open>TextDecoder\<close> turns them into text.
\<close>

definition byteAt :: "Uint8Array \<Rightarrow> nat \<Rightarrow> 32 word" where
  "byteAt buf i = (if i < length buf then ucast (buf ! i) else 0)"

definition u32le :: "Uint8Array \<Rightarrow> nat \<Rightarrow> nat" where
  "u32le buf off =
     unat (byteAt buf off OR push_bit 8 (byteAt buf (off + 1))
           OR push_bit 16 (byteAt buf (off + 2)) OR push_bit 24 (byteAt buf (off + 3)))"

definition u16le :: "Uint8Array \<Rightarrow> nat \<Rightarrow> nat" where
  "u16le buf off = unat (byteAt buf off OR push_bit 8 (byteAt buf (off + 1)))"

definition u16be :: "Uint8Array \<Rightarrow> nat \<Rightarrow> nat" where
  "u16be buf off = unat (push_bit 8 (byteAt buf off) OR byteAt buf (off + 1))"

text \<open>The big-endian reader of four bytes, the counterpart of \<open>u32le\<close>.\<close>

definition u32be :: "Uint8Array \<Rightarrow> nat \<Rightarrow> nat" where
  "u32be buf off =
     unat (push_bit 24 (byteAt buf off) OR push_bit 16 (byteAt buf (off + 1))
           OR push_bit 8 (byteAt buf (off + 2)) OR byteAt buf (off + 3))"

record DirEntry =
  name :: Uint8Array
  extentLba :: nat
  dataLen :: nat
  isDir :: bool

text \<open>
  The loop of \<open>parseRootDir\<close>. When \<open>off\<close> is past the end of a short sector every read is
  \<open>undefined\<close>: one empty entry is pushed, \<open>off\<close> becomes \<open>NaN\<close> and the loop ends.
\<close>

function parseLoop :: "Uint8Array \<Rightarrow> nat \<Rightarrow> DirEntry list" where
  "parseLoop sector off =
     (if off < S then
        (if off < length sector then
           (let recLen = unat (sector ! off) in
            if recLen = 0 then []
            else \<lparr>name = take (unat (byteAt sector (off + 32))) (drop (off + 33) sector),
                  extentLba = u32le sector (off + 2),
                  dataLen = u32le sector (off + 10),
                  isDir = (byteAt sector (off + 25) AND 2 \<noteq> 0)\<rparr>
                 # parseLoop sector (off + recLen))
         else [\<lparr>name = [], extentLba = 0, dataLen = 0, isDir = False\<rparr>])
      else [])"
  by pat_completeness auto
termination
  by (relation "measure (\<lambda>(sector, off). S - off)") auto

declare parseLoop.simps [simp del]

definition sectorAt :: "Uint8Array \<Rightarrow> nat \<Rightarrow> Uint8Array" where
  "sectorAt isoArr lba = take S (drop (lba * S) isoArr)"

definition parseRootDir :: "Uint8Array \<Rightarrow> nat \<Rightarrow> DirEntry list" where
  "parseRootDir isoArr lba = parseLoop (sectorAt isoArr lba) 0"

definition fileContent :: "Uint8Array \<Rightarrow> DirEntry \<Rightarrow> Uint8Array" where
  "fileContent isoArr entry = take (dataLen entry) (drop (extentLba entry * S) isoArr)"

text \<open>\<open>fileContent(iso, parseRootDir(iso, 18).find(e => e.name === nm))\<close>, as the tests read a file.\<close>

definition readFile :: "Uint8Array \<Rightarrow> js_string \<Rightarrow> Uint8Array option" where
  "readFile isoArr nm =
     map_option (fileContent isoArr)
       (find (\<lambda>e. name e = TextEncoder_encode nm) (parseRootDir isoArr 18))"

section \<open>Notions of the specification\<close>

text \<open>
  The little-endian and big-endian encodings of a number in four and in two bytes (of its
  low 32 and low 16 bits), and a both-endian field: the first followed by the second.
\<close>

definition le32 :: "nat \<Rightarrow> Uint8Array" where
  "le32 v = [of_nat (v mod 256), of_nat (v div 256 mod 256),
             of_nat (v div 65536 mod 256), of_nat (v div 16777216 mod 256)]"

definition be32 :: "nat \<Rightarrow> Uint8Array" where
  "be32 v = [of_nat (v div 16777216 mod 256), of_nat (v div 65536 mod 256),
             of_nat (v div 256 mod 256), of_nat (v mod 256)]"

definition le16 :: "nat \<Rightarrow> Uint8Array" where
  "le16 v = [of_nat (v mod 256), of_nat (v div 256 mod 256)]"

definition be16 :: "nat \<Rightarrow> Uint8Array" where
  "be16 v = [of_nat (v div 256 mod 256), of_nat (v mod 256)]"

definition bothEndian32 :: "nat \<Rightarrow> Uint8Array" where
  "bothEndian32 v = le32 v @ be32 v"

definition bothEndian16 :: "nat \<Rightarrow> Uint8Array" where
  "bothEndian16 v = le16 v @ be16 v"

text \<open>
  Walking a directory sector: the first byte of a record is its length, the next record
  follows it directly, and a zero length byte ends the walk. The result is the list of the
  records, each with all its bytes.
\<close>

function recordSlices :: "Uint8Array \<Rightarrow> nat \<Rightarrow> Uint8Array list" where
  "recordSlices sector off =
     (if off < length sector then
        (let recLen = unat (sector ! off) in
         if recLen = 0 then []
         else take recLen (drop off sector) # recordSlices sector (off + recLen))
      else [])"
  by pat_completeness auto
termination
  by (relation "measure (\<lambda>(sector, off). length sector - off)") auto

declare recordSlices.simps [simp del]

text \<open>Removing the spaces at the end of a field.\<close>

definition rtrimSpaces :: "Uint8Array \<Rightarrow> Uint8Array" where
  "rtrimSpaces bs = rev (dropWhile (\<lambda>b. b = 0x20) (rev bs))"

text \<open>
  The round trip: the image is built, and both files read back from it are the encoded
  inputs.
\<close>

definition roundTrip :: "js_string \<Rightarrow> js_string \<Rightarrow> bool" where
  "roundTrip userData metaData =
     (case makeCloudInitIso userData metaData of
        None \<Rightarrow> False
      | Some isoArr \<Rightarrow>
          readFile isoArr (js_str ''USER-DATA'') = Some (TextEncoder_encode userData)
          \<and> readFile isoArr (js_str ''META-DATA'') = Some (TextEncoder_encode metaData))"

text \<open>
  The size of the image as the claim states it: a multiple of the sector size, more than
  16 sectors, and the sector size times the 32-bit number at offset 80 of the sector at
  LBA 16.
\<close>

definition volumeSizeConsistent :: "js_string \<Rightarrow> js_string \<Rightarrow> bool" where
  "volumeSizeConsistent userData metaData =
     (case makeCloudInitIso userData metaData of
        None \<Rightarrow> False
      | Some isoArr \<Rightarrow>
          length isoArr mod S = 0 \<and> 16 * S < length isoArr
          \<and> u32le (sectorAt isoArr 16) 80 * S = length isoArr)"

text \<open>
  The files of the image built from two inputs, as its root directory lists them: name and
  recorded data length of every entry that is not a directory.
\<close>

definition listedFiles :: "js_string \<Rightarrow> js_string \<Rightarrow> (Uint8Array \<times> nat) list" where
  "listedFiles userData metaData =
     (case makeCloudInitIso userData metaData of
        None \<Rightarrow> []
      | Some isoArr \<Rightarrow>
          map (\<lambda>e. (name e, dataLen e)) (filter (\<lambda>e. \<not> isDir e) (parseRootDir isoArr 18)))"

section \<open>Closed forms used in the proofs\<close>

text \<open>The bytes of a directory record, field after field.\<close>

definition recordBytes :: "Uint8Array \<Rightarrow> bool \<Rightarrow> nat \<Rightarrow> nat \<Rightarrow> Uint8Array" where
  "recordBytes nm dir lba len =
     [of_nat (33 + length nm + (if length nm mod 2 = 0 then 1 else 0)), 0]
     @ u32b lba @ u32b len
     @ [126, 2, 21, 0, 0, 0, 0, if dir then 2 else 0, 0, 0]
     @ u16b 1 @ [of_nat (length nm)] @ nm
     @ replicate (if length nm mod 2 = 0 then 1 else 0) 0"

text \<open>The terminator sector and the root directory sector.\<close>

definition vdstBytes :: Uint8Array where
  "vdstBytes = [255, 67, 68, 48, 48, 49, 1] @ replicate 2041 0"

definition rootDirBytes :: "nat \<Rightarrow> nat \<Rightarrow> nat \<Rightarrow> Uint8Array" where
  "rootDirBytes lenM lbaU lenU =
     recordBytes [0] True 18 S @ recordBytes [1] True 18 S
     @ recordBytes (TextEncoder_encode (js_str ''META-DATA'')) False 19 lenM
     @ recordBytes (TextEncoder_encode (js_str ''USER-DATA'')) False lbaU lenU
     @ replicate 1896 0"

text \<open>The first 156 bytes of the primary volume descriptor.\<close>

definition pvdHead :: "nat \<Rightarrow> Uint8Array" where
  "pvdHead totalSectors =
     [1, 67, 68, 48, 48, 49, 1, 0] @ replicate 32 32
     @ [67, 73, 68, 65, 84, 65] @ replicate 26 32 @ replicate 8 0
     @ u32b totalSectors @ replicate 32 0
     @ u16b 1 @ u16b 1 @ u16b S @ u32b 0 @ replicate 16 0"

section \<open>Arrays\<close>

lemma length_overwrite [simp]: "length (overwrite target src off) = length target"
  by (simp add: overwrite_def)

lemma nth_overwrite:
  "i < length target \<Longrightarrow>
   overwrite target src off ! i =
     (if off \<le> i \<and> i < off + length src then src ! (i - off) else target ! i)"
  by (simp add: overwrite_def)

lemma overwrite_append:
  "off + length src \<le> length target \<Longrightarrow>
   overwrite target src off = take off target @ src @ drop (off + length src) target"
  by (rule nth_equalityI) (auto simp add: nth_overwrite nth_append)

lemma length_arr_fill [simp]: "length (arr_fill target v s e) = length target"
  by (simp add: arr_fill_def)

lemma nth_arr_fill:
  "i < length target \<Longrightarrow>
   arr_fill target v s e ! i = (if s \<le> i \<and> i < e then v else target ! i)"
  by (simp add: arr_fill_def)

lemma list_update_Cons_numeral:
  "(x # xs)[numeral v := y] = x # xs[numeral v - 1 := y]"
  by (simp add: numeral_eq_Suc)

lemma replicate_numeral: "replicate (numeral v) x = x # replicate (numeral v - 1) x"
  by (simp add: numeral_eq_Suc)

lemma take_drop_map_nth:
  "k + n \<le> length xs \<Longrightarrow> take n (drop k xs) = map (\<lambda>i. xs ! i) [k..<k + n]"
  by (rule nth_equalityI) (auto simp add: add.commute)

section \<open>Bytes of a number\<close>

lemma length_u32b [simp]: "length (u32b v) = 8"
  by (simp add: u32b_def Let_def)

lemma length_u16b [simp]: "length (u16b v) = 4"
  by (simp add: u16b_def Let_def)

lemma mask255: "(255 :: 32 word) = mask 8"
  by (simp add: mask_eq_exp_minus_1)

lemma byte_of_shift:
  "k \<le> 24 \<Longrightarrow>
   (ucast (signed_drop_bit k (of_nat v :: 32 word) AND 0xFF) :: byte) = of_nat (v div 2 ^ k)"
  unfolding mask255
  by (rule bit_word_eqI) (auto simp add: bit_simps simp flip: drop_bit_eq_div)

lemma byte_of_low: "(ucast ((of_nat v :: 32 word) AND 0xFF) :: byte) = of_nat v"
  using byte_of_shift [of 0 v] by simp

lemma u32b_bytes:
  "u32b v = [of_nat v, of_nat (v div 256), of_nat (v div 65536), of_nat (v div 16777216),
             of_nat (v div 16777216), of_nat (v div 65536), of_nat (v div 256), of_nat v]"
  using byte_of_shift [of 8 v] byte_of_shift [of 16 v] byte_of_shift [of 24 v] byte_of_low [of v]
  by (simp add: u32b_def Let_def)

lemma u16b_bytes:
  "u16b v = [of_nat v, of_nat (v div 256), of_nat (v div 256), of_nat v]"
  using byte_of_shift [of 8 v] byte_of_low [of v]
  by (simp add: u16b_def Let_def)

section \<open>Sector counts\<close>

lemma sectorCount_eq: "sectorCount n = max 1 ((n + 2047) div 2048)"
proof -
  have "nat \<lceil>real n / real 2048\<rceil> = (n + 2047) div 2048"
    by linarith
  then show ?thesis
    by (simp add: sectorCount_def S_def Let_def max_def)
qed

section \<open>Encoded literals\<close>

lemma enc_CD001: "TextEncoder_encode (js_str ''CD001'') = [67, 68, 48, 48, 49]"
  by (simp add: js_str_def)

lemma enc_CIDATA: "TextEncoder_encode (js_str ''CIDATA'') = [67, 73, 68, 65, 84, 65]"
  by (simp add: js_str_def)

lemma enc_d16:
  "TextEncoder_encode (js_str ''0000000000000000'') =
     [48, 48, 48, 48, 48, 48, 48, 48, 48, 48, 48, 48, 48, 48, 48, 48]"
  by (simp add: js_str_def)

lemma enc_META: "TextEncoder_encode (js_str ''META-DATA'') = [77, 69, 84, 65, 45, 68, 65, 84, 65]"
  by (simp add: js_str_def)

lemma enc_USER: "TextEncoder_encode (js_str ''USER-DATA'') = [85, 83, 69, 82, 45, 68, 65, 84, 65]"
  by (simp add: js_str_def)

section \<open>Directory records\<close>

lemma replicate_33:
  "replicate (33 + n) (0 :: byte) =
     [0,0,0,0,0,0,0,0,0,0,0,0,0,0,0,0,0,0,0,0,0,0,0,0,0,0,0,0,0,0,0,0,0] @ replicate n 0"
  by (simp add: replicate_add replicate_numeral)

lemma dirRecord_eq: "dirRecord nm d e l = Some (recordBytes nm d e l)"
proof -
  define p :: nat where "p = (if length nm mod 2 = 0 then 1 else 0)"
  define R :: Uint8Array where "R = replicate (length nm + p) 0"
  have r0: "replicate (33 + length nm + p) (0 :: byte) =
     [0,0,0,0,0,0,0,0,0,0,0,0,0,0,0,0,0,0,0,0,0,0,0,0,0,0,0,0,0,0,0,0,0] @ R"
    unfolding R_def using replicate_33 [of "length nm + p"] by (simp add: add.assoc)
  have dR: "drop (length nm) R = replicate p 0"
    by (simp add: R_def)
  have lR: "length R = length nm + p"
    by (simp add: R_def)
  show ?thesis
    unfolding dirRecord_def recordBytes_def p_def [symmetric] Let_def r0
    apply (simp add: arr_set_def overwrite_append list_update_Cons_numeral u32b_bytes
        u16b_bytes lR)
    apply (simp add: dR lR add.commute [of 33] flip: drop_drop)
    done
qed

section \<open>The layout of the image\<close>

lemma length_recordBytes:
  "length (recordBytes nm d e l) = 33 + length nm + (if length nm mod 2 = 0 then 1 else 0)"
  by (simp add: recordBytes_def)

lemma sectorCount_pos: "0 < sectorCount n"
  by (simp add: sectorCount_eq)

lemma sectorCount_fits: "n \<le> sectorCount n * 2048"
proof -
  have "(n + 2047) div 2048 * 2048 + (n + 2047) mod 2048 = n + 2047"
    by (rule div_mult_mod_eq)
  moreover have "(n + 2047) mod 2048 < 2048"
    by simp
  ultimately have "n \<le> (n + 2047) div 2048 * 2048"
    by linarith
  moreover have "(n + 2047) div 2048 * 2048 \<le> sectorCount n * 2048"
    unfolding sectorCount_eq by (rule mult_le_mono1) simp
  ultimately show ?thesis
    by (rule order_trans)
qed

lemma arr_set_zeros:
  "length src \<le> n \<Longrightarrow>
   arr_set (A @ replicate n 0) src (length A) = Some (A @ src @ replicate (n - length src) 0)"
  by (simp add: arr_set_def overwrite_append)

lemma mk_vdst_eq: "mk_vdst = Some vdstBytes"
proof -
  have "replicate 7 (0 :: byte) = [0, 0, 0, 0, 0, 0, 0]"
    by (simp add: numeral_eq_Suc)
  moreover have "replicate S (0 :: byte) = replicate 7 0 @ replicate 2041 0"
    unfolding S_def by (simp add: replicate_add [symmetric] del: replicate.simps)
  ultimately have "replicate S (0 :: byte) = [0, 0, 0, 0, 0, 0, 0] @ replicate 2041 0"
    by simp
  then show ?thesis
    unfolding mk_vdst_def vdstBytes_def Let_def
    by (simp add: arr_set_def overwrite_append list_update_Cons_numeral enc_CD001)
qed


lemma take_numeral_map_nth:
  "numeral n \<le> length xs \<Longrightarrow> 2 \<le> (numeral n :: nat) \<Longrightarrow>
   take (numeral n) xs = xs ! 0 # xs ! 1 # map (\<lambda>i. xs ! i) [2..<numeral n]"
proof -
  assume a: "numeral n \<le> length xs" "2 \<le> (numeral n :: nat)"
  have "take (numeral n) xs = map (\<lambda>i. xs ! i) [0..<numeral n]"
    using take_drop_map_nth [of 0 "numeral n" xs] a by simp
  also have "[0..<numeral n] = 0 # 1 # [2..<numeral n]"
    using a(2) by (simp add: upt_conv_Cons numeral_2_eq_2)
  finally show ?thesis by simp
qed

lemma mk_pvd_facts:
  assumes d: "length dotRec = 34"
  shows "\<exists>pvd. mk_pvd T dotRec = Some pvd \<and> length pvd = 2048
     \<and> take 156 pvd = pvdHead T
     \<and> (\<forall>i<34. pvd ! (156 + i) = dotRec ! i)"
proof -
  have h: "pvdHead T =
      [1, 67, 68, 48, 48, 49, 1, 0,
       32, 32, 32, 32, 32, 32, 32, 32, 32, 32, 32, 32, 32, 32, 32, 32,
       32, 32, 32, 32, 32, 32, 32, 32, 32, 32, 32, 32, 32, 32, 32, 32,
       67, 73, 68, 65, 84, 65,
       32, 32, 32, 32, 32, 32, 32, 32, 32, 32, 32, 32, 32,
       32, 32, 32, 32, 32, 32, 32, 32, 32, 32, 32, 32, 32,
       0, 0, 0, 0, 0, 0, 0, 0,
       of_nat T, of_nat (T div 256), of_nat (T div 65536), of_nat (T div 16777216),
       of_nat (T div 16777216), of_nat (T div 65536), of_nat (T div 256), of_nat T,
       0, 0, 0, 0, 0, 0, 0, 0, 0, 0, 0, 0, 0, 0, 0, 0,
       0, 0, 0, 0, 0, 0, 0, 0, 0, 0, 0, 0, 0, 0, 0, 0,
       1, 0, 0, 1, 1, 0, 0, 1, 0, 8, 8, 0,
       0, 0, 0, 0, 0, 0, 0, 0,
       0, 0, 0, 0, 0, 0, 0, 0, 0, 0, 0, 0, 0, 0, 0, 0]"
    by (simp add: pvdHead_def S_def replicate_numeral u32b_bytes u16b_bytes)
  show ?thesis
    unfolding mk_pvd_def h using d
    apply (simp add: arr_set_def S_def Let_def enc_CD001 enc_CIDATA enc_d16)
    apply (simp add: take_numeral_map_nth nth_overwrite nth_arr_fill u32b_bytes u16b_bytes)
    done
qed


lemma extentsLoop_files:
  "extentsLoop 19 [] (map snd (files u m)) =
     (19 + sectorCount (length (TextEncoder_encode m)) + sectorCount (length (TextEncoder_encode u)),
      [19, 19 + sectorCount (length (TextEncoder_encode m))])"
  by (simp add: files_def)

lemma makeCloudInitIso_layout:
  fixes u m :: js_string
  defines "em \<equiv> TextEncoder_encode m" and "eu \<equiv> TextEncoder_encode u"
  defines "sm \<equiv> sectorCount (length em)" and "su \<equiv> sectorCount (length eu)"
  shows "\<exists>pvd. mk_pvd (19 + sm + su) (recordBytes [0] True 18 S) = Some pvd \<and> length pvd = 2048 \<and>
     makeCloudInitIso u m =
       Some (replicate 32768 0 @ pvd @ vdstBytes @ rootDirBytes (length em) (19 + sm) (length eu)
             @ em @ replicate (sm * 2048 - length em) 0
             @ eu @ replicate (su * 2048 - length eu) 0)"
proof -
  let ?dot = "recordBytes [0] True 18 S"
  let ?dotdot = "recordBytes [1] True 18 S"
  let ?r0 = "recordBytes (TextEncoder_encode (js_str ''META-DATA'')) False 19 (length em)"
  let ?r1 = "recordBytes (TextEncoder_encode (js_str ''USER-DATA'')) False (19 + sm) (length eu)"
  let ?rd = "rootDirBytes (length em) (19 + sm) (length eu)"
  let ?Z = "replicate 32768 (0 :: byte)"
  have ldot: "length ?dot = 34" "length ?dotdot = 34" "length ?r0 = 42" "length ?r1 = 42"
    by (simp_all add: length_recordBytes enc_META enc_USER)
  obtain pvd where pvd: "mk_pvd (19 + sm + su) ?dot = Some pvd" and lpvd: "length pvd = 2048"
    using mk_pvd_facts [of ?dot "19 + sm + su"] ldot(1) by auto
  have s1: "arr_set (replicate S 0) ?dot 0 = Some (?dot @ replicate 2014 0)"
    using arr_set_zeros [of ?dot 2048 "[]"] by (simp add: ldot [unfolded S_def] S_def)
  have s2: "arr_set (?dot @ replicate 2014 0) ?dotdot (length ?dot)
      = Some (?dot @ ?dotdot @ replicate 1980 0)"
    using arr_set_zeros [of ?dotdot 2014 ?dot] by (simp add: ldot)
  have s3: "arr_set (?dot @ ?dotdot @ replicate 1980 0) ?r0 68
      = Some (?dot @ ?dotdot @ ?r0 @ replicate 1938 0)"
    using arr_set_zeros [of ?r0 1980 "?dot @ ?dotdot"] by (simp add: ldot)
  have s4: "arr_set (?dot @ ?dotdot @ ?r0 @ replicate 1938 0) ?r1 110 = Some ?rd"
    using arr_set_zeros [of ?r1 1938 "?dot @ ?dotdot @ ?r0"]
    by (simp add: rootDirBytes_def ldot [unfolded S_def] S_def)
  have loop: "rootDirLoop (files u m) [19, 19 + sm] [0, Suc 0]
       (?dot @ ?dotdot @ replicate 1980 0, length ?dot + length ?dotdot) = Some (?rd, 152)"
    by (simp add: files_def dirRecord_eq s3 s4 ldot em_def [symmetric] eu_def [symmetric])
  have lrd: "length ?rd = 2048"
    by (simp add: rootDirBytes_def length_recordBytes enc_META enc_USER)
  have lv: "length vdstBytes = 2048"
    by (simp add: vdstBytes_def)
  have sm1: "0 < sm" and su1: "0 < su"
    by (simp_all add: sm_def su_def sectorCount_pos)
  have fm: "length em \<le> sm * 2048" and fu: "length eu \<le> su * 2048"
    by (simp_all add: sm_def su_def sectorCount_fits)
  have i0: "replicate ((19 + sm + su) * S) (0 :: byte)
      = ?Z @ replicate (6144 + (sm * 2048 + su * 2048)) 0"
    by (simp add: S_def replicate_add [symmetric] add_mult_distrib del: replicate.simps)
  have i1: "arr_set (?Z @ replicate (6144 + (sm * 2048 + su * 2048)) 0) pvd (16 * S)
      = Some (?Z @ pvd @ replicate (4096 + (sm * 2048 + su * 2048)) 0)"
    using arr_set_zeros [of pvd "6144 + (sm * 2048 + su * 2048)" ?Z] by (simp add: lpvd S_def)
  have i2: "arr_set (?Z @ pvd @ replicate (4096 + (sm * 2048 + su * 2048)) 0) vdstBytes (17 * S)
      = Some (?Z @ pvd @ vdstBytes @ replicate (2048 + (sm * 2048 + su * 2048)) 0)"
    using arr_set_zeros [of vdstBytes "4096 + (sm * 2048 + su * 2048)" "?Z @ pvd"]
    by (simp add: lpvd lv S_def)
  have i3: "arr_set (?Z @ pvd @ vdstBytes @ replicate (2048 + (sm * 2048 + su * 2048)) 0) ?rd (18 * S)
      = Some (?Z @ pvd @ vdstBytes @ ?rd @ replicate (sm * 2048 + su * 2048) 0)"
    using arr_set_zeros [of ?rd "2048 + (sm * 2048 + su * 2048)" "?Z @ pvd @ vdstBytes"]
    by (simp add: lpvd lv lrd S_def)
  have i4: "arr_set (?Z @ pvd @ vdstBytes @ ?rd @ replicate (sm * 2048 + su * 2048) 0) em (19 * S)
      = Some (?Z @ pvd @ vdstBytes @ ?rd @ em @ replicate (sm * 2048 - length em) 0
                @ replicate (su * 2048) 0)"
    using arr_set_zeros [of em "sm * 2048 + su * 2048" "?Z @ pvd @ vdstBytes @ ?rd"] fm
    by (simp add: lpvd lv lrd S_def replicate_add [symmetric] del: replicate.simps)
  have i5: "arr_set (?Z @ pvd @ vdstBytes @ ?rd @ em @ replicate (sm * 2048 - length em) 0
                @ replicate (su * 2048) 0) eu ((19 + sm) * S)
      = Some (?Z @ pvd @ vdstBytes @ ?rd @ em @ replicate (sm * 2048 - length em) 0
                @ eu @ replicate (su * 2048 - length eu) 0)"
    using arr_set_zeros [of eu "su * 2048"
        "?Z @ pvd @ vdstBytes @ ?rd @ em @ replicate (sm * 2048 - length em) 0"] fm fu
    by (simp add: lpvd lv lrd S_def add_mult_distrib)
  have copy: "copyLoop (files u m) [19, 19 + sm] [0, Suc 0]
       (?Z @ pvd @ vdstBytes @ ?rd @ replicate (sm * 2048 + su * 2048) 0)
      = Some (?Z @ pvd @ vdstBytes @ ?rd @ em @ replicate (sm * 2048 - length em) 0
                @ eu @ replicate (su * 2048 - length eu) 0)"
    using i4 i5 by (simp add: files_def em_def [symmetric] eu_def [symmetric])
  have idx: "[0..<length (files u m)] = [0, Suc 0]"
    by (simp add: files_def upt_rec)
  have ext: "extentsLoop 19 [] (map snd (files u m)) = (19 + sm + su, [19, 19 + sm])"
    by (simp add: extentsLoop_files sm_def su_def em_def eu_def)
  have "makeCloudInitIso u m =
       Some (?Z @ pvd @ vdstBytes @ ?rd @ em @ replicate (sm * 2048 - length em) 0
             @ eu @ replicate (su * 2048 - length eu) 0)"
    unfolding makeCloudInitIso_def Let_def ext idx
    by (simp only: dirRecord_eq pvd mk_vdst_eq s1 s2 loop i0 i1 i2 i3 copy
        Option.bind.bind_lunit prod.case)
  with pvd lpvd show ?thesis by blast
qed


lemma makeCloudInitIso_sectors:
  fixes u m :: js_string
  defines "em \<equiv> TextEncoder_encode m" and "eu \<equiv> TextEncoder_encode u"
  defines "sm \<equiv> sectorCount (length em)" and "su \<equiv> sectorCount (length eu)"
  shows "\<exists>isoArr. makeCloudInitIso u m = Some isoArr
     \<and> length isoArr = (19 + sm + su) * 2048
     \<and> take 32768 isoArr = replicate 32768 0
     \<and> take 156 (sectorAt isoArr 16) = pvdHead (19 + sm + su)
     \<and> take 34 (drop 156 (sectorAt isoArr 16)) = recordBytes [0] True 18 S
     \<and> sectorAt isoArr 17 = vdstBytes
     \<and> sectorAt isoArr 18 = rootDirBytes (length em) (19 + sm) (length eu)
     \<and> drop 38912 isoArr = em @ replicate (sm * 2048 - length em) 0
                               @ eu @ replicate (su * 2048 - length eu) 0"
proof -
  let ?rd = "rootDirBytes (length em) (19 + sm) (length eu)"
  let ?dot = "recordBytes [0] True 18 S"
  obtain pvd where pvd: "mk_pvd (19 + sm + su) ?dot = Some pvd" and lpvd: "length pvd = 2048"
    and iso: "makeCloudInitIso u m =
       Some (replicate 32768 0 @ pvd @ vdstBytes @ ?rd
             @ em @ replicate (sm * 2048 - length em) 0
             @ eu @ replicate (su * 2048 - length eu) 0)"
    using makeCloudInitIso_layout [where u = u and m = m] unfolding em_def eu_def sm_def su_def by blast
  have ldot: "length ?dot = 34"
    by (simp add: length_recordBytes)
  obtain pvd' where "mk_pvd (19 + sm + su) ?dot = Some pvd'"
    and h: "take 156 pvd' = pvdHead (19 + sm + su)"
    and e: "\<forall>i<34. pvd' ! (156 + i) = ?dot ! i"
    using mk_pvd_facts [OF ldot, of "19 + sm + su"] by blast
  with pvd have pp: "pvd' = pvd" by simp
  have emb: "take 34 (drop 156 pvd) = ?dot"
    using e lpvd ldot unfolding pp by (intro nth_equalityI) simp_all
  have lrd: "length ?rd = 2048"
    by (simp add: rootDirBytes_def length_recordBytes enc_META enc_USER)
  have lv: "length vdstBytes = 2048"
    by (simp add: vdstBytes_def)
  have fm: "length em \<le> sm * 2048" and fu: "length eu \<le> su * 2048"
    by (simp_all add: sm_def su_def sectorCount_fits)
  let ?iso = "replicate 32768 0 @ pvd @ vdstBytes @ ?rd
             @ em @ replicate (sm * 2048 - length em) 0
             @ eu @ replicate (su * 2048 - length eu) 0"
  have "length ?iso = (19 + sm + su) * 2048"
    using fm fu by (simp add: lpvd lv lrd add_mult_distrib)
  moreover have "take 32768 ?iso = replicate 32768 0"
    by simp
  moreover have "sectorAt ?iso 16 = pvd"
    by (simp add: sectorAt_def S_def lpvd)
  moreover have "sectorAt ?iso 17 = vdstBytes"
    by (simp add: sectorAt_def S_def lpvd lv)
  moreover have "sectorAt ?iso 18 = ?rd"
    by (simp add: sectorAt_def S_def lpvd lv lrd)
  moreover have "drop 38912 ?iso = em @ replicate (sm * 2048 - length em) 0
                               @ eu @ replicate (su * 2048 - length eu) 0"
    by (simp add: lpvd lv lrd)
  ultimately show ?thesis
    using iso h emb unfolding pp by simp
qed

section \<open>Reading numbers back\<close>

lemma of_nat_mod_256: "(of_nat (x mod 256) :: byte) = of_nat x"
  by (rule bit_word_eqI) (auto simp add: bit_simps simp flip: take_bit_eq_mod [of 8, simplified])

lemma u32b_bothEndian: "u32b v = bothEndian32 v"
  by (simp add: u32b_bytes bothEndian32_def le32_def be32_def of_nat_mod_256)

lemma u16b_bothEndian: "u16b v = bothEndian16 v"
  by (simp add: u16b_bytes bothEndian16_def le16_def be16_def of_nat_mod_256)

lemma bit_div_256: "bit (v div 256 :: nat) n = bit v (8 + n)"
  using bit_drop_bit_eq [of 8 v] by (simp add: drop_bit_eq_div)

lemma bit_div_65536: "bit (v div 65536 :: nat) n = bit v (16 + n)"
  using bit_drop_bit_eq [of 16 v] by (simp add: drop_bit_eq_div)

lemma bit_div_16777216: "bit (v div 16777216 :: nat) n = bit v (24 + n)"
  using bit_drop_bit_eq [of 24 v] by (simp add: drop_bit_eq_div)

lemma word_of_le32:
  "(ucast (of_nat v :: byte) :: 32 word) OR push_bit 8 (ucast (of_nat (v div 256) :: byte))
     OR push_bit 16 (ucast (of_nat (v div 65536) :: byte))
     OR push_bit 24 (ucast (of_nat (v div 16777216) :: byte)) = of_nat v"
proof (rule bit_word_eqI)
  fix n
  assume "n < LENGTH(32)"
  then consider "n < 8" | "8 \<le> n" "n < 16" | "16 \<le> n" "n < 24" | "24 \<le> n" "n < 32"
    by fastforce
  then show "bit ((ucast (of_nat v :: byte) :: 32 word)
        OR push_bit 8 (ucast (of_nat (v div 256) :: byte))
        OR push_bit 16 (ucast (of_nat (v div 65536) :: byte))
        OR push_bit 24 (ucast (of_nat (v div 16777216) :: byte))) n
      = bit (of_nat v :: 32 word) n"
    by cases (auto simp add: bit_simps bit_div_256 bit_div_65536 bit_div_16777216)
qed

lemma word_of_le16:
  "(ucast (of_nat v :: byte) :: 32 word) OR push_bit 8 (ucast (of_nat (v div 256) :: byte))
     = of_nat (v mod 65536)"
proof (rule bit_word_eqI)
  fix n
  assume "n < LENGTH(32)"
  then consider "n < 8" | "8 \<le> n" "n < 16" | "16 \<le> n" "n < 32"
    by fastforce
  then show "bit ((ucast (of_nat v :: byte) :: 32 word)
        OR push_bit 8 (ucast (of_nat (v div 256) :: byte))) n
      = bit (of_nat (v mod 65536) :: 32 word) n"
    by cases (auto simp add: bit_simps bit_div_256 simp flip: take_bit_eq_mod [of 16, simplified])
qed


lemma word_of_be32:
  "push_bit 24 (ucast (of_nat (v div 16777216) :: byte) :: 32 word)
     OR push_bit 16 (ucast (of_nat (v div 65536) :: byte))
     OR push_bit 8 (ucast (of_nat (v div 256) :: byte))
     OR ucast (of_nat v :: byte) = of_nat v"
  using word_of_le32 [of v] by (simp add: ac_simps)

lemma word_of_be16:
  "push_bit 8 (ucast (of_nat (v div 256) :: byte) :: 32 word) OR ucast (of_nat v :: byte)
     = of_nat (v mod 65536)"
  using word_of_le16 [of v] by (simp add: ac_simps)

lemma unat_of_nat_32: "unat (of_nat v :: 32 word) = v mod 4294967296"
  by (simp add: unat_of_nat)

lemma slice_nth:
  "off + n \<le> length buf \<Longrightarrow> take n (drop off buf) = xs \<Longrightarrow> k < n \<Longrightarrow> buf ! (off + k) = xs ! k"
  by (metis add_leD1 nth_drop nth_take)

lemma u32le_le32:
  assumes "off + 4 \<le> length buf" and "take 4 (drop off buf) = le32 v"
  shows "u32le buf off = v mod 4294967296"
proof -
  have "buf ! (off + 0) = le32 v ! 0" "buf ! (off + 1) = le32 v ! 1"
       "buf ! (off + 2) = le32 v ! 2" "buf ! (off + 3) = le32 v ! 3"
    using assms slice_nth [of off 4 buf "le32 v" 0] slice_nth [of off 4 buf "le32 v" 1]
      slice_nth [of off 4 buf "le32 v" 2] slice_nth [of off 4 buf "le32 v" 3]
    by simp_all
  then show ?thesis
    using assms(1)
    by (simp add: u32le_def byteAt_def le32_def of_nat_mod_256 word_of_le32 unat_of_nat_32)
qed

lemma u32be_be32:
  assumes "off + 4 \<le> length buf" and "take 4 (drop off buf) = be32 v"
  shows "u32be buf off = v mod 4294967296"
proof -
  have "buf ! (off + 0) = be32 v ! 0" "buf ! (off + 1) = be32 v ! 1"
       "buf ! (off + 2) = be32 v ! 2" "buf ! (off + 3) = be32 v ! 3"
    using assms slice_nth [of off 4 buf "be32 v" 0] slice_nth [of off 4 buf "be32 v" 1]
      slice_nth [of off 4 buf "be32 v" 2] slice_nth [of off 4 buf "be32 v" 3]
    by simp_all
  then show ?thesis
    using assms(1)
    by (simp add: u32be_def byteAt_def be32_def of_nat_mod_256 word_of_be32 unat_of_nat_32)
qed

lemma u16le_le16:
  assumes "off + 2 \<le> length buf" and "take 2 (drop off buf) = le16 v"
  shows "u16le buf off = v mod 65536"
proof -
  have "buf ! (off + 0) = le16 v ! 0" "buf ! (off + 1) = le16 v ! 1"
    using assms slice_nth [of off 2 buf "le16 v" 0] slice_nth [of off 2 buf "le16 v" 1]
    by simp_all
  then show ?thesis
    using assms(1)
    by (simp add: u16le_def byteAt_def le16_def of_nat_mod_256 word_of_le16 unat_of_nat)
qed

lemma u16be_be16:
  assumes "off + 2 \<le> length buf" and "take 2 (drop off buf) = be16 v"
  shows "u16be buf off = v mod 65536"
proof -
  have "buf ! (off + 0) = be16 v ! 0" "buf ! (off + 1) = be16 v ! 1"
    using assms slice_nth [of off 2 buf "be16 v" 0] slice_nth [of off 2 buf "be16 v" 1]
    by simp_all
  then show ?thesis
    using assms(1)
    by (simp add: u16be_def byteAt_def be16_def of_nat_mod_256 word_of_be16 unat_of_nat)
qed

section \<open>Reading a directory record\<close>

lemma length_le32 [simp]: "length (le32 v) = 4"
  by (simp add: le32_def)

lemma length_be32 [simp]: "length (be32 v) = 4"
  by (simp add: be32_def)

lemma length_le16 [simp]: "length (le16 v) = 2"
  by (simp add: le16_def)

lemma length_be16 [simp]: "length (be16 v) = 2"
  by (simp add: be16_def)

lemma recordBytes_fields:
  "recordBytes nm d e l ! 0 = of_nat (length (recordBytes nm d e l))"
  "take 8 (drop 2 (recordBytes nm d e l)) = bothEndian32 e"
  "take 4 (drop 2 (recordBytes nm d e l)) = le32 e"
  "take 8 (drop 10 (recordBytes nm d e l)) = bothEndian32 l"
  "take 4 (drop 10 (recordBytes nm d e l)) = le32 l"
  "recordBytes nm d e l ! 25 = (if d then 2 else 0)"
  "take 4 (drop 28 (recordBytes nm d e l)) = bothEndian16 1"
  "recordBytes nm d e l ! 32 = of_nat (length nm)"
  "take (length nm) (drop 33 (recordBytes nm d e l)) = nm"
  by (simp_all add: recordBytes_def u32b_bytes u16b_bytes bothEndian32_def bothEndian16_def
      le32_def be32_def le16_def be16_def of_nat_mod_256)

lemma nth_mid: "k < length R \<Longrightarrow> (A @ R @ B) ! (length A + k) = R ! k"
  by (simp add: nth_append)

lemma slice_mid:
  "k + n \<le> length R \<Longrightarrow> take n (drop (length A + k) (A @ R @ B)) = take n (drop k R)"
  by (simp add: add.commute [of "length A"] flip: drop_drop)

lemma byteAt_mid: "k < length R \<Longrightarrow> byteAt (A @ R @ B) (length A + k) = ucast (R ! k)"
  by (simp add: byteAt_def nth_append)

lemma parseLoop_record:
  fixes nm :: Uint8Array and d :: bool and e l :: nat
  defines "R \<equiv> recordBytes nm d e l"
  assumes a: "length A < S" and n: "length nm < 222"
  shows "parseLoop (A @ R @ B) (length A) =
     \<lparr>name = nm, extentLba = e mod 4294967296, dataLen = l mod 4294967296, isDir = d\<rparr>
     # parseLoop (A @ R @ B) (length A + length R)"
proof -
  have lR: "length R = 33 + length nm + (if length nm mod 2 = 0 then 1 else 0)"
    by (simp add: R_def length_recordBytes)
  then have lR33: "33 \<le> length R" "33 + length nm \<le> length R" "length R < 256" "length R \<noteq> 0"
    using n by auto
  have r0: "(A @ R @ B) ! length A = of_nat (length R)"
    using nth_mid [of 0 R A B] lR33 recordBytes_fields(1) [of nm d e l] by (simp add: R_def)
  have len: "unat ((A @ R @ B) ! length A) = length R"
    unfolding r0 using lR33 by (simp add: unat_of_nat)
  have nl: "byteAt (A @ R @ B) (length A + 32) = ucast (of_nat (length nm) :: byte)"
    using byteAt_mid [of 32 R A B] lR33 recordBytes_fields(8) [of nm d e l] by (simp add: R_def)
  have unl: "unat (ucast (of_nat (length nm) :: byte) :: 32 word) = length nm"
    using n by (simp add: unsigned_ucast_eq unat_of_nat take_bit_eq_mod)
  have nmeq: "take (length nm) (drop (length A + 33) (A @ R @ B)) = nm"
    using slice_mid [of 33 "length nm" R A B] lR33 recordBytes_fields(9) [of nm d e l]
    by (simp add: R_def)
  have ext: "u32le (A @ R @ B) (length A + 2) = e mod 4294967296"
    using slice_mid [of 2 4 R A B] lR33 recordBytes_fields(3) [of nm d e l]
    by (intro u32le_le32) (simp_all add: R_def)
  have dl: "u32le (A @ R @ B) (length A + 10) = l mod 4294967296"
    using slice_mid [of 10 4 R A B] lR33 recordBytes_fields(5) [of nm d e l]
    by (intro u32le_le32) (simp_all add: R_def)
  have fl: "byteAt (A @ R @ B) (length A + 25) = (if d then 2 else 0)"
    using byteAt_mid [of 25 R A B] lR33 recordBytes_fields(6) [of nm d e l] by (simp add: R_def)
  have dir: "(byteAt (A @ R @ B) (length A + 25) AND 2 \<noteq> 0) = d"
    unfolding fl by simp
  show ?thesis
    apply (subst parseLoop.simps)
    using a lR33 len nl unl nmeq ext dl dir
    apply (simp add: Let_def)
    done
qed


lemma recordSlices_record:
  fixes nm :: Uint8Array and d :: bool and e l :: nat
  defines "R \<equiv> recordBytes nm d e l"
  assumes n: "length nm < 222"
  shows "recordSlices (A @ R @ B) (length A) = R # recordSlices (A @ R @ B) (length A + length R)"
proof -
  have lR: "length R = 33 + length nm + (if length nm mod 2 = 0 then 1 else 0)"
    by (simp add: R_def length_recordBytes)
  then have lR33: "length R < 256" "length R \<noteq> 0"
    using n by auto
  have r0: "(A @ R @ B) ! length A = of_nat (length R)"
    using nth_mid [of 0 R A B] lR33 recordBytes_fields(1) [of nm d e l] by (simp add: R_def)
  have len: "unat ((A @ R @ B) ! length A) = length R"
    unfolding r0 using lR33 by (simp add: unat_of_nat)
  show ?thesis
    apply (subst recordSlices.simps)
    using lR33 len
    apply (simp add: Let_def)
    done
qed

lemma parseLoop_zero: "length A < S \<Longrightarrow> 0 < n \<Longrightarrow> parseLoop (A @ replicate n 0) (length A) = []"
  by (subst parseLoop.simps) (simp add: nth_append)

lemma recordSlices_zero: "0 < n \<Longrightarrow> recordSlices (A @ replicate n 0) (length A) = []"
  by (subst recordSlices.simps) (simp add: nth_append)

lemma parseLoop_rootDirBytes:
  "parseLoop (rootDirBytes lm xu lu) 0 =
     [\<lparr>name = [0], extentLba = 18, dataLen = 2048, isDir = True\<rparr>,
      \<lparr>name = [1], extentLba = 18, dataLen = 2048, isDir = True\<rparr>,
      \<lparr>name = TextEncoder_encode (js_str ''META-DATA''), extentLba = 19,
        dataLen = lm mod 4294967296, isDir = False\<rparr>,
      \<lparr>name = TextEncoder_encode (js_str ''USER-DATA''), extentLba = xu mod 4294967296,
        dataLen = lu mod 4294967296, isDir = False\<rparr>]"
proof -
  let ?R0 = "recordBytes [0] True 18 S"
  let ?R1 = "recordBytes [1] True 18 S"
  let ?R2 = "recordBytes (TextEncoder_encode (js_str ''META-DATA'')) False 19 lm"
  let ?R3 = "recordBytes (TextEncoder_encode (js_str ''USER-DATA'')) False xu lu"
  let ?Z = "replicate 1896 (0 :: byte)"
  let ?rd = "rootDirBytes lm xu lu"
  have l: "length ?R0 = 34" "length ?R1 = 34" "length ?R2 = 42" "length ?R3 = 42"
    by (simp_all add: length_recordBytes enc_META enc_USER)
  have p0: "parseLoop ?rd 0 =
      \<lparr>name = [0], extentLba = 18, dataLen = 2048, isDir = True\<rparr> # parseLoop ?rd 34"
    using parseLoop_record [where A = "[]" and nm = "[0]" and d = True and e = 18 and l = S
        and B = "?R1 @ ?R2 @ ?R3 @ ?Z"]
    by (simp add: rootDirBytes_def l) (simp add: S_def)
  have p1: "parseLoop ?rd 34 =
      \<lparr>name = [1], extentLba = 18, dataLen = 2048, isDir = True\<rparr> # parseLoop ?rd 68"
    using parseLoop_record [where A = "?R0" and nm = "[1]" and d = True and e = 18 and l = S
        and B = "?R2 @ ?R3 @ ?Z"]
    by (simp add: rootDirBytes_def l) (simp add: S_def)
  have p2: "parseLoop ?rd 68 =
      \<lparr>name = TextEncoder_encode (js_str ''META-DATA''), extentLba = 19,
        dataLen = lm mod 4294967296, isDir = False\<rparr> # parseLoop ?rd 110"
    using parseLoop_record [where A = "?R0 @ ?R1"
        and nm = "TextEncoder_encode (js_str ''META-DATA'')" and d = False and e = 19 and l = lm
        and B = "?R3 @ ?Z"]
    by (simp add: rootDirBytes_def l) (simp add: S_def enc_META)
  have p3: "parseLoop ?rd 110 =
      \<lparr>name = TextEncoder_encode (js_str ''USER-DATA''), extentLba = xu mod 4294967296,
        dataLen = lu mod 4294967296, isDir = False\<rparr> # parseLoop ?rd 152"
    using parseLoop_record [where A = "?R0 @ ?R1 @ ?R2"
        and nm = "TextEncoder_encode (js_str ''USER-DATA'')" and d = False and e = xu and l = lu
        and B = "?Z"]
    by (simp add: rootDirBytes_def l) (simp add: S_def enc_USER)
  have p4: "parseLoop ?rd 152 = []"
    using parseLoop_zero [where A = "?R0 @ ?R1 @ ?R2 @ ?R3" and n = 1896]
    by (simp add: rootDirBytes_def l) (simp add: S_def)
  show ?thesis
    by (simp only: p0 p1 p2 p3 p4)
qed

lemma recordSlices_rootDirBytes:
  "recordSlices (rootDirBytes lm xu lu) 0 =
     [recordBytes [0] True 18 S, recordBytes [1] True 18 S,
      recordBytes (TextEncoder_encode (js_str ''META-DATA'')) False 19 lm,
      recordBytes (TextEncoder_encode (js_str ''USER-DATA'')) False xu lu]"
proof -
  let ?R0 = "recordBytes [0] True 18 S"
  let ?R1 = "recordBytes [1] True 18 S"
  let ?R2 = "recordBytes (TextEncoder_encode (js_str ''META-DATA'')) False 19 lm"
  let ?R3 = "recordBytes (TextEncoder_encode (js_str ''USER-DATA'')) False xu lu"
  let ?Z = "replicate 1896 (0 :: byte)"
  let ?rd = "rootDirBytes lm xu lu"
  have l: "length ?R0 = 34" "length ?R1 = 34" "length ?R2 = 42" "length ?R3 = 42"
    by (simp_all add: length_recordBytes enc_META enc_USER)
  have p0: "recordSlices ?rd 0 = ?R0 # recordSlices ?rd 34"
    using recordSlices_record [where A = "[]" and nm = "[0]" and d = True and e = 18 and l = S
        and B = "?R1 @ ?R2 @ ?R3 @ ?Z"]
    by (simp add: rootDirBytes_def l)
  have p1: "recordSlices ?rd 34 = ?R1 # recordSlices ?rd 68"
    using recordSlices_record [where A = "?R0" and nm = "[1]" and d = True and e = 18 and l = S
        and B = "?R2 @ ?R3 @ ?Z"]
    by (simp add: rootDirBytes_def l)
  have p2: "recordSlices ?rd 68 = ?R2 # recordSlices ?rd 110"
    using recordSlices_record [where A = "?R0 @ ?R1"
        and nm = "TextEncoder_encode (js_str ''META-DATA'')" and d = False and e = 19 and l = lm
        and B = "?R3 @ ?Z"]
    by (simp add: rootDirBytes_def l) (simp add: enc_META)
  have p3: "recordSlices ?rd 110 = ?R3 # recordSlices ?rd 152"
    using recordSlices_record [where A = "?R0 @ ?R1 @ ?R2"
        and nm = "TextEncoder_encode (js_str ''USER-DATA'')" and d = False and e = xu and l = lu
        and B = "?Z"]
    by (simp add: rootDirBytes_def l) (simp add: enc_USER)
  have p4: "recordSlices ?rd 152 = []"
    using recordSlices_zero [where A = "?R0 @ ?R1 @ ?R2 @ ?R3" and n = 1896]
    by (simp add: rootDirBytes_def l)
  show ?thesis
    by (simp only: p0 p1 p2 p3 p4)
qed

section \<open>Fields of the volume descriptor\<close>

lemma slice_of_take:
  "take j P = H \<Longrightarrow> k + n \<le> j \<Longrightarrow> take n (drop k P) = take n (drop k H)"
  by (auto simp add: drop_take min_def)

lemma nth_of_take: "take j P = H \<Longrightarrow> k < j \<Longrightarrow> P ! k = H ! k"
  by auto

lemma slice_of_slice:
  "take j (drop off P) = D \<Longrightarrow> k + n \<le> j \<Longrightarrow> take n (drop (off + k) P) = take n (drop k D)"
  using slice_of_take [of j "drop off P" D k n] by (simp add: add.commute)

lemma pvdHead_fields:
  "length (pvdHead T) = 156"
  "pvdHead T ! 0 = 1"
  "take 5 (drop 1 (pvdHead T)) = [67, 68, 48, 48, 49]"
  "pvdHead T ! 6 = 1"
  "take 32 (drop 40 (pvdHead T)) = [67, 73, 68, 65, 84, 65] @ replicate 26 32"
  "take 8 (drop 80 (pvdHead T)) = bothEndian32 T"
  "take 4 (drop 80 (pvdHead T)) = le32 T"
  "take 4 (drop 120 (pvdHead T)) = bothEndian16 1"
  "take 4 (drop 124 (pvdHead T)) = bothEndian16 1"
  "take 4 (drop 128 (pvdHead T)) = bothEndian16 2048"
  "take 2 (drop 128 (pvdHead T)) = le16 2048"
  "take 2 (drop 130 (pvdHead T)) = be16 2048"
  "take 8 (drop 132 (pvdHead T)) = bothEndian32 0"
  "take 4 (drop 132 (pvdHead T)) = le32 0"
  "take 4 (drop 136 (pvdHead T)) = be32 0"
  "take 12 (drop 140 (pvdHead T)) = replicate 12 0"
  by (simp_all add: pvdHead_def S_def u32b_bothEndian u16b_bothEndian bothEndian32_def
      bothEndian16_def)

lemma vdstBytes_fields:
  "length vdstBytes = 2048"
  "vdstBytes ! 0 = 255"
  "take 5 (drop 1 vdstBytes) = [67, 68, 48, 48, 49]"
  "vdstBytes ! 6 = 1"
  by (simp_all add: vdstBytes_def)

lemma rtrimSpaces_CIDATA:
  "rtrimSpaces ([67, 73, 68, 65, 84, 65] @ replicate 26 32) = [67, 73, 68, 65, 84, 65]"
proof -
  have "dropWhile (\<lambda>b. b = 32) (replicate 26 (32 :: byte) @ [65, 84, 65, 68, 73, 67])
      = dropWhile (\<lambda>b. b = 32) [65, 84, 65, 68, 73, 67]"
    by (rule dropWhile_append2) simp
  then show ?thesis
    by (simp add: rtrimSpaces_def)
qed


lemma plan_eq:
  "planTotalSectors u m =
     19 + sectorCount (length (TextEncoder_encode m)) + sectorCount (length (TextEncoder_encode u))"
  "planExtents u m = [19, 19 + sectorCount (length (TextEncoder_encode m))]"
  by (simp_all add: planTotalSectors_def planExtents_def extentsLoop_files)

lemma makeCloudInitIso_image:
  "\<exists>isoArr. makeCloudInitIso u m = Some isoArr
     \<and> length isoArr = planTotalSectors u m * 2048
     \<and> take 32768 isoArr = replicate 32768 0
     \<and> length (sectorAt isoArr 16) = 2048
     \<and> take 156 (sectorAt isoArr 16) = pvdHead (planTotalSectors u m)
     \<and> take 34 (drop 156 (sectorAt isoArr 16)) = recordBytes [0] True 18 S
     \<and> sectorAt isoArr 17 = vdstBytes
     \<and> sectorAt isoArr 18 = rootDirBytes (length (TextEncoder_encode m)) (planExtents u m ! 1)
           (length (TextEncoder_encode u))
     \<and> drop 38912 isoArr =
           TextEncoder_encode m
           @ replicate (sectorCount (length (TextEncoder_encode m)) * 2048
                        - length (TextEncoder_encode m)) 0
           @ TextEncoder_encode u
           @ replicate (sectorCount (length (TextEncoder_encode u)) * 2048
                        - length (TextEncoder_encode u)) 0"
proof -
  obtain isoArr where i: "makeCloudInitIso u m = Some isoArr"
    and l: "length isoArr = planTotalSectors u m * 2048"
    and rest: "take 32768 isoArr = replicate 32768 0"
      "take 156 (sectorAt isoArr 16) = pvdHead (planTotalSectors u m)"
      "take 34 (drop 156 (sectorAt isoArr 16)) = recordBytes [0] True 18 S"
      "sectorAt isoArr 17 = vdstBytes"
      "sectorAt isoArr 18 = rootDirBytes (length (TextEncoder_encode m)) (planExtents u m ! 1)
           (length (TextEncoder_encode u))"
      "drop 38912 isoArr =
           TextEncoder_encode m
           @ replicate (sectorCount (length (TextEncoder_encode m)) * 2048
                        - length (TextEncoder_encode m)) 0
           @ TextEncoder_encode u
           @ replicate (sectorCount (length (TextEncoder_encode u)) * 2048
                        - length (TextEncoder_encode u)) 0"
    using makeCloudInitIso_sectors [where u = u and m = m] unfolding plan_eq by auto
  have "length (sectorAt isoArr 16) = 2048"
    using l sectorCount_pos [of "length (TextEncoder_encode m)"]
    by (simp add: sectorAt_def S_def plan_eq)
  with i l rest show ?thesis
    by blast
qed

lemma sectorCount_max: "sectorCount n = max 1 (nat \<lceil>real n / 2048\<rceil>)"
proof -
  have "nat \<lceil>real n / 2048\<rceil> = (n + 2047) div 2048"
    by linarith
  then show ?thesis
    by (simp add: sectorCount_eq)
qed

lemma payload_slices:
  fixes em eu :: Uint8Array
  assumes d: "drop 38912 isoArr = em @ replicate (sm * 2048 - length em) 0
                @ eu @ replicate (su * 2048 - length eu) 0"
    and fm: "length em \<le> sm * 2048" and fu: "length eu \<le> su * 2048"
  shows "take (length em) (drop (19 * 2048) isoArr) = em"
    and "take (length eu) (drop ((19 + sm) * 2048) isoArr) = eu"
    and "take (sm * 2048 - length em) (drop (19 * 2048 + length em) isoArr)
           = replicate (sm * 2048 - length em) 0"
    and "take (su * 2048 - length eu) (drop ((19 + sm) * 2048 + length eu) isoArr)
           = replicate (su * 2048 - length eu) 0"
proof -
  let ?D = "em @ replicate (sm * 2048 - length em) 0 @ eu @ replicate (su * 2048 - length eu) 0"
  have a: "drop (38912 + k) isoArr = drop k ?D" for k
    using d by (simp add: add.commute [of 38912] flip: drop_drop)
  show "take (length em) (drop (19 * 2048) isoArr) = em"
    using a [of 0] by simp
  show "take (length eu) (drop ((19 + sm) * 2048) isoArr) = eu"
    using a [of "sm * 2048"] fm by (simp add: add_mult_distrib)
  show "take (sm * 2048 - length em) (drop (19 * 2048 + length em) isoArr)
           = replicate (sm * 2048 - length em) 0"
    using a [of "length em"] by simp
  show "take (su * 2048 - length eu) (drop ((19 + sm) * 2048 + length eu) isoArr)
           = replicate (su * 2048 - length eu) 0"
    using a [of "sm * 2048 + length eu"] fm by (simp add: add_mult_distrib add.assoc)
qed

section \<open>Reading the files back\<close>

lemma readFile_rootDirBytes:
  assumes "sectorAt isoArr 18 = rootDirBytes lm xu lu"
  shows "readFile isoArr (js_str ''META-DATA'')
           = Some (take (lm mod 4294967296) (drop (19 * S) isoArr))"
    and "readFile isoArr (js_str ''USER-DATA'')
           = Some (take (lu mod 4294967296) (drop (xu mod 4294967296 * S) isoArr))"
  by (simp_all add: readFile_def parseRootDir_def assms parseLoop_rootDirBytes fileContent_def
      enc_META enc_USER)

lemma sectorCount_le: "n < 4294967296 \<Longrightarrow> sectorCount n \<le> 2097152"
  unfolding sectorCount_eq by simp

section \<open>Strings of the runtime\<close>

lemma enc_step:
  "length (TextEncoder_encode (c # cs)) \<le> 3 + length (TextEncoder_encode cs)
   \<or> (\<exists>d ds. cs = d # ds
         \<and> length (TextEncoder_encode (c # cs)) = 4 + length (TextEncoder_encode ds))"
  by (auto simp add: TextEncoder_encode.simps(2) [of c cs] Let_def
      simp del: TextEncoder_encode.simps split: list.splits)

lemma enc_length_le: "length (TextEncoder_encode s) \<le> 3 * length s"
proof (induction "length s" arbitrary: s rule: less_induct)
  case less
  show ?case
  proof (cases s)
    case Nil
    then show ?thesis
      by simp
  next
    case (Cons c cs)
    from enc_step [of c cs] show ?thesis
    proof
      assume a: "length (TextEncoder_encode (c # cs)) \<le> 3 + length (TextEncoder_encode cs)"
      have "length (TextEncoder_encode cs) \<le> 3 * length cs"
        using less [of cs] Cons by simp
      with a show ?thesis
        unfolding Cons by simp
    next
      assume "\<exists>d ds. cs = d # ds
         \<and> length (TextEncoder_encode (c # cs)) = 4 + length (TextEncoder_encode ds)"
      then obtain d ds where cs: "cs = d # ds"
        and a: "length (TextEncoder_encode (c # cs)) = 4 + length (TextEncoder_encode ds)"
        by blast
      have "length (TextEncoder_encode ds) \<le> 3 * length ds"
        using less [of ds] Cons cs by simp
      with a show ?thesis
        unfolding Cons cs by (simp del: TextEncoder_encode.simps)
    qed
  qed
qed

lemma stringFits_enc: "stringFits s \<Longrightarrow> length (TextEncoder_encode s) < 4294967296"
  using enc_length_le [of s] by (simp add: stringFits_def)

lemma stringFits_total:
  assumes "stringFits u" and "stringFits m"
  shows "planTotalSectors u m < 4294967296"
  using sectorCount_le [OF stringFits_enc [OF assms(1)]]
    sectorCount_le [OF stringFits_enc [OF assms(2)]]
  by (simp add: plan_eq)

section \<open>Claims\<close>

text \<open>
  C8. \<open>makeCloudInitIso\<close> raises no error for any two strings: it always returns an image.
  For two empty strings the image has a length that is a multiple of 2048 and exceeds 16
  sectors, and byte 0 of the sector at LBA 16 is 1.
\<close>

theorem makeCloudInitIso_total:
  "(\<exists>isoArr. makeCloudInitIso userData metaData = Some isoArr)
   \<and> (\<exists>isoArr. makeCloudInitIso [] [] = Some isoArr
         \<and> length isoArr mod 2048 = 0 \<and> 16 * 2048 < length isoArr
         \<and> isoArr ! (16 * 2048) = 1)"
proof
  show "\<exists>isoArr. makeCloudInitIso userData metaData = Some isoArr"
    using makeCloudInitIso_sectors [where u = userData and m = metaData] by blast
next
  obtain isoArr where i: "makeCloudInitIso [] [] = Some isoArr"
    and l: "length isoArr = (19 + sectorCount 0 + sectorCount 0) * 2048"
    and p: "take 156 (sectorAt isoArr 16) = pvdHead (19 + sectorCount 0 + sectorCount 0)"
    using makeCloudInitIso_sectors [where u = "[]" and m = "[]"] by auto
  have "take 156 (sectorAt isoArr 16) ! 0 = 1"
    unfolding p by (simp add: pvdHead_def)
  then have "isoArr ! (16 * 2048) = 1"
    using l by (simp add: sectorAt_def S_def sectorCount_eq)
  then show "\<exists>isoArr. makeCloudInitIso [] [] = Some isoArr
         \<and> length isoArr mod 2048 = 0 \<and> 16 * 2048 < length isoArr
         \<and> isoArr ! (16 * 2048) = 1"
    using i l by (simp add: sectorCount_eq)
qed

text \<open>
  C7. For every pair of inputs, in the sector at LBA 16 byte 0 is 1, bytes 1 to 5 are
  "CD001" and byte 6 is 1; in the sector at LBA 17 byte 0 is 255, bytes 1 to 5 are "CD001"
  and byte 6 is 1; bytes 40 to 71 of LBA 16 are "CIDATA" followed by 26 spaces, so that
  removing the spaces at the end leaves "CIDATA".
\<close>

theorem fixed_descriptor_fields:
  "\<exists>isoArr. makeCloudInitIso userData metaData = Some isoArr
     \<and> sectorAt isoArr 16 ! 0 = 1
     \<and> take 5 (drop 1 (sectorAt isoArr 16)) = TextEncoder_encode (js_str ''CD001'')
     \<and> sectorAt isoArr 16 ! 6 = 1
     \<and> sectorAt isoArr 17 ! 0 = 255
     \<and> take 5 (drop 1 (sectorAt isoArr 17)) = TextEncoder_encode (js_str ''CD001'')
     \<and> sectorAt isoArr 17 ! 6 = 1
     \<and> take 32 (drop 40 (sectorAt isoArr 16))
           = TextEncoder_encode (js_str ''CIDATA'') @ replicate 26 0x20
     \<and> rtrimSpaces (take 32 (drop 40 (sectorAt isoArr 16)))
           = TextEncoder_encode (js_str ''CIDATA'')"
proof -
  obtain isoArr where i: "makeCloudInitIso userData metaData = Some isoArr"
    and h: "take 156 (sectorAt isoArr 16) = pvdHead (planTotalSectors userData metaData)"
    and v: "sectorAt isoArr 17 = vdstBytes"
    using makeCloudInitIso_image [of userData metaData] by blast
  let ?P = "sectorAt isoArr 16"
  have "?P ! 0 = 1"
    using nth_of_take [OF h, of 0] by (simp add: pvdHead_fields)
  moreover have "take 5 (drop 1 ?P) = TextEncoder_encode (js_str ''CD001'')"
    using slice_of_take [OF h, of 1 5] pvdHead_fields(3) [of "planTotalSectors userData metaData"]
    by (simp add: enc_CD001)
  moreover have "?P ! 6 = 1"
    using nth_of_take [OF h, of 6] by (simp add: pvdHead_fields)
  moreover have "sectorAt isoArr 17 ! 0 = 255" "sectorAt isoArr 17 ! 6 = 1"
     "take 5 (drop 1 (sectorAt isoArr 17)) = TextEncoder_encode (js_str ''CD001'')"
    unfolding v using vdstBytes_fields by (simp_all add: enc_CD001)
  moreover have vol: "take 32 (drop 40 ?P) = TextEncoder_encode (js_str ''CIDATA'') @ replicate 26 0x20"
    using slice_of_take [OF h, of 40 32] by (simp add: pvdHead_fields enc_CIDATA)
  moreover have "rtrimSpaces (take 32 (drop 40 ?P)) = TextEncoder_encode (js_str ''CIDATA'')"
    unfolding vol using rtrimSpaces_CIDATA by (simp add: enc_CIDATA)
  ultimately show ?thesis
    using i by blast
qed

text \<open>
  C3. The files are META-DATA then USER-DATA (the first code unit of the one is below that
  of the other). The extents are assigned in that order from LBA 19; after each file the
  counter advances by the maximum of 1 and the ceiling of the byte length over 2048, so an
  empty payload takes one sector. Both extents are at LBA 19 or later, USER-DATA begins
  right after the last sector of META-DATA, and each payload lies at its extent in the
  image.
\<close>

theorem layout_planner_extents:
  "map fst (files userData metaData) = [js_str ''META-DATA'', js_str ''USER-DATA'']
   \<and> js_str ''META-DATA'' ! 0 < js_str ''USER-DATA'' ! 0
   \<and> extentsLoop lba exts (d # rest) =
         extentsLoop (lba + max 1 (nat \<lceil>real (length d) / 2048\<rceil>)) (exts @ [lba]) rest
   \<and> sectorCount 0 = 1
   \<and> planExtents userData metaData =
         [19, 19 + max 1 (nat \<lceil>real (length (TextEncoder_encode metaData)) / 2048\<rceil>)]
   \<and> planTotalSectors userData metaData =
         19 + max 1 (nat \<lceil>real (length (TextEncoder_encode metaData)) / 2048\<rceil>)
            + max 1 (nat \<lceil>real (length (TextEncoder_encode userData)) / 2048\<rceil>)
   \<and> 19 \<le> planExtents userData metaData ! 0
   \<and> 19 \<le> planExtents userData metaData ! 1
   \<and> (\<exists>isoArr. makeCloudInitIso userData metaData = Some isoArr
         \<and> take (length (TextEncoder_encode metaData))
                (drop (planExtents userData metaData ! 0 * 2048) isoArr)
             = TextEncoder_encode metaData
         \<and> take (length (TextEncoder_encode userData))
                (drop (planExtents userData metaData ! 1 * 2048) isoArr)
             = TextEncoder_encode userData)"
proof -
  let ?em = "TextEncoder_encode metaData" and ?eu = "TextEncoder_encode userData"
  obtain isoArr where i: "makeCloudInitIso userData metaData = Some isoArr"
    and d: "drop 38912 isoArr =
           ?em @ replicate (sectorCount (length ?em) * 2048 - length ?em) 0
           @ ?eu @ replicate (sectorCount (length ?eu) * 2048 - length ?eu) 0"
    using makeCloudInitIso_image [of userData metaData] by blast
  have p: "take (length ?em) (drop (19 * 2048) isoArr) = ?em"
     "take (length ?eu) (drop ((19 + sectorCount (length ?em)) * 2048) isoArr) = ?eu"
    using payload_slices(1,2) [OF d sectorCount_fits sectorCount_fits] by simp_all
  have "map fst (files userData metaData) = [js_str ''META-DATA'', js_str ''USER-DATA'']"
    by (simp add: files_def)
  moreover have "js_str ''META-DATA'' ! 0 < js_str ''USER-DATA'' ! 0"
    by (simp add: js_str_def)
  moreover have "extentsLoop lba exts (d # rest) =
         extentsLoop (lba + max 1 (nat \<lceil>real (length d) / 2048\<rceil>)) (exts @ [lba]) rest"
    by (simp add: sectorCount_max)
  moreover have "sectorCount 0 = 1"
    by (simp add: sectorCount_eq)
  moreover have "planExtents userData metaData =
         [19, 19 + max 1 (nat \<lceil>real (length ?em) / 2048\<rceil>)]"
    by (simp add: plan_eq sectorCount_max)
  moreover have "planTotalSectors userData metaData =
         19 + max 1 (nat \<lceil>real (length ?em) / 2048\<rceil>)
            + max 1 (nat \<lceil>real (length ?eu) / 2048\<rceil>)"
    by (simp add: plan_eq sectorCount_max)
  moreover have "19 \<le> planExtents userData metaData ! 0" "19 \<le> planExtents userData metaData ! 1"
    by (simp_all add: plan_eq)
  moreover have "take (length ?em) (drop (planExtents userData metaData ! 0 * 2048) isoArr) = ?em"
    using p(1) by (simp add: plan_eq)
  moreover have "take (length ?eu) (drop (planExtents userData metaData ! 1 * 2048) isoArr) = ?eu"
    using p(2) by (simp add: plan_eq)
  ultimately show ?thesis
    using i by blast
qed

text \<open>
  C9. For every pair of inputs the first 16 sectors of the image are zero, and in the
  extent of each file every byte after the payload, up to the end of the last sector the
  file occupies, is zero. The extent of USER-DATA ends where the image ends.
\<close>

theorem zeroed_unwritten_regions:
  "\<exists>isoArr. makeCloudInitIso userData metaData = Some isoArr
     \<and> take (16 * 2048) isoArr = replicate (16 * 2048) 0
     \<and> length (TextEncoder_encode metaData)
           \<le> sectorCount (length (TextEncoder_encode metaData)) * 2048
     \<and> take (sectorCount (length (TextEncoder_encode metaData)) * 2048
               - length (TextEncoder_encode metaData))
          (drop (planExtents userData metaData ! 0 * 2048
                 + length (TextEncoder_encode metaData)) isoArr)
         = replicate (sectorCount (length (TextEncoder_encode metaData)) * 2048
                      - length (TextEncoder_encode metaData)) 0
     \<and> length (TextEncoder_encode userData)
           \<le> sectorCount (length (TextEncoder_encode userData)) * 2048
     \<and> take (sectorCount (length (TextEncoder_encode userData)) * 2048
               - length (TextEncoder_encode userData))
          (drop (planExtents userData metaData ! 1 * 2048
                 + length (TextEncoder_encode userData)) isoArr)
         = replicate (sectorCount (length (TextEncoder_encode userData)) * 2048
                      - length (TextEncoder_encode userData)) 0
     \<and> planExtents userData metaData ! 1
         = planExtents userData metaData ! 0 + sectorCount (length (TextEncoder_encode metaData))
     \<and> length isoArr
         = (planExtents userData metaData ! 1 + sectorCount (length (TextEncoder_encode userData)))
           * 2048"
proof -
  let ?em = "TextEncoder_encode metaData" and ?eu = "TextEncoder_encode userData"
  obtain isoArr where i: "makeCloudInitIso userData metaData = Some isoArr"
    and l: "length isoArr = planTotalSectors userData metaData * 2048"
    and z: "take 32768 isoArr = replicate 32768 0"
    and d: "drop 38912 isoArr =
           ?em @ replicate (sectorCount (length ?em) * 2048 - length ?em) 0
           @ ?eu @ replicate (sectorCount (length ?eu) * 2048 - length ?eu) 0"
    using makeCloudInitIso_image [of userData metaData] by blast
  have p: "take (sectorCount (length ?em) * 2048 - length ?em)
             (drop (19 * 2048 + length ?em) isoArr)
           = replicate (sectorCount (length ?em) * 2048 - length ?em) 0"
     "take (sectorCount (length ?eu) * 2048 - length ?eu)
             (drop ((19 + sectorCount (length ?em)) * 2048 + length ?eu) isoArr)
           = replicate (sectorCount (length ?eu) * 2048 - length ?eu) 0"
    using payload_slices(3,4) [OF d sectorCount_fits sectorCount_fits] by simp_all
  have "take (16 * 2048) isoArr = replicate (16 * 2048) 0"
    using z by simp
  moreover have "take (sectorCount (length ?em) * 2048 - length ?em)
          (drop (planExtents userData metaData ! 0 * 2048 + length ?em) isoArr)
         = replicate (sectorCount (length ?em) * 2048 - length ?em) 0"
    using p(1) by (simp add: plan_eq)
  moreover have "take (sectorCount (length ?eu) * 2048 - length ?eu)
          (drop (planExtents userData metaData ! 1 * 2048 + length ?eu) isoArr)
         = replicate (sectorCount (length ?eu) * 2048 - length ?eu) 0"
    using p(2) by (simp add: plan_eq)
  moreover have "planExtents userData metaData ! 1
         = planExtents userData metaData ! 0 + sectorCount (length ?em)"
    by (simp add: plan_eq)
  moreover have "length isoArr
         = (planExtents userData metaData ! 1 + sectorCount (length ?eu)) * 2048"
    using l by (simp add: plan_eq)
  ultimately show ?thesis
    using i sectorCount_fits [of "length ?em"] sectorCount_fits [of "length ?eu"] by blast
qed

text \<open>
  C10. For every pair of inputs, the eight bytes at offset 132 of the sector at LBA 16 are
  the both-endian encoding of 0, the twelve bytes from offset 140 to 151 are zero, and no
  sector lies between the root directory and the file data: the first extent is LBA 19,
  META-DATA is recorded and stored there, and the image has exactly the 19 leading sectors
  and the sectors of the two files.
\<close>

theorem no_path_tables:
  "\<exists>isoArr. makeCloudInitIso userData metaData = Some isoArr
     \<and> take 8 (drop 132 (sectorAt isoArr 16)) = bothEndian32 0
     \<and> u32le (sectorAt isoArr 16) 132 = 0
     \<and> u32be (sectorAt isoArr 16) 136 = 0
     \<and> take 12 (drop 140 (sectorAt isoArr 16)) = replicate 12 0
     \<and> planExtents userData metaData ! 0 = 19
     \<and> map extentLba (parseRootDir isoArr 18) ! 2 = 19
     \<and> take (length (TextEncoder_encode metaData)) (drop (19 * 2048) isoArr)
         = TextEncoder_encode metaData
     \<and> length isoArr
         = (19 + sectorCount (length (TextEncoder_encode metaData))
               + sectorCount (length (TextEncoder_encode userData))) * 2048"
proof -
  let ?em = "TextEncoder_encode metaData" and ?eu = "TextEncoder_encode userData"
  obtain isoArr where i: "makeCloudInitIso userData metaData = Some isoArr"
    and l: "length isoArr = planTotalSectors userData metaData * 2048"
    and lp: "length (sectorAt isoArr 16) = 2048"
    and h: "take 156 (sectorAt isoArr 16) = pvdHead (planTotalSectors userData metaData)"
    and rd: "sectorAt isoArr 18 = rootDirBytes (length ?em) (planExtents userData metaData ! 1)
           (length ?eu)"
    and d: "drop 38912 isoArr =
           ?em @ replicate (sectorCount (length ?em) * 2048 - length ?em) 0
           @ ?eu @ replicate (sectorCount (length ?eu) * 2048 - length ?eu) 0"
    using makeCloudInitIso_image [of userData metaData] by blast
  let ?P = "sectorAt isoArr 16"
  have "take 8 (drop 132 ?P) = bothEndian32 0"
    using slice_of_take [OF h, of 132 8] by (simp add: pvdHead_fields)
  moreover have "u32le ?P 132 = 0"
    using slice_of_take [OF h, of 132 4] u32le_le32 [of 132 ?P 0] lp
    by (simp add: pvdHead_fields)
  moreover have "u32be ?P 136 = 0"
    using slice_of_take [OF h, of 136 4] u32be_be32 [of 136 ?P 0] lp
    by (simp add: pvdHead_fields)
  moreover have "take 12 (drop 140 ?P) = replicate 12 0"
    using slice_of_take [OF h, of 140 12] by (simp add: pvdHead_fields)
  moreover have "planExtents userData metaData ! 0 = 19"
    by (simp add: plan_eq)
  moreover have "map extentLba (parseRootDir isoArr 18) ! 2 = 19"
    by (simp add: parseRootDir_def rd parseLoop_rootDirBytes)
  moreover have "take (length ?em) (drop (19 * 2048) isoArr) = ?em"
    using payload_slices(1) [OF d sectorCount_fits sectorCount_fits] by simp
  moreover have "length isoArr
         = (19 + sectorCount (length ?em) + sectorCount (length ?eu)) * 2048"
    using l by (simp add: plan_eq)
  ultimately show ?thesis
    using i by blast
qed

text \<open>
  C6. \<open>u32b\<close> and \<open>u16b\<close> write the little-endian bytes of a number directly followed by
  its big-endian bytes. For every pair of inputs the volume space size, the set size, the
  sequence number and the block size of the sector at LBA 16, and the extent, the data
  length and the sequence number of every record of the root directory and of the root
  record inside the descriptor, are such fields. The 16-bit numbers at offsets 128
  (little-endian) and 130 (big-endian) of LBA 16 are 2048, and both halves of the extent of
  the record at offset 156 are 18.
\<close>

theorem both_endian_fields:
  "u32b v = bothEndian32 v \<and> u16b v = bothEndian16 v
   \<and> (\<exists>isoArr. makeCloudInitIso userData metaData = Some isoArr
     \<and> take 8 (drop 80 (sectorAt isoArr 16)) = bothEndian32 (planTotalSectors userData metaData)
     \<and> take 4 (drop 120 (sectorAt isoArr 16)) = bothEndian16 1
     \<and> take 4 (drop 124 (sectorAt isoArr 16)) = bothEndian16 1
     \<and> take 4 (drop 128 (sectorAt isoArr 16)) = bothEndian16 2048
     \<and> u16le (sectorAt isoArr 16) 128 = 2048
     \<and> u16be (sectorAt isoArr 16) 130 = 2048
     \<and> take 8 (drop (156 + 2) (sectorAt isoArr 16)) = bothEndian32 18
     \<and> take 8 (drop (156 + 10) (sectorAt isoArr 16)) = bothEndian32 2048
     \<and> take 4 (drop (156 + 28) (sectorAt isoArr 16)) = bothEndian16 1
     \<and> u32le (sectorAt isoArr 16) (156 + 2) = 18
     \<and> u32be (sectorAt isoArr 16) (156 + 6) = 18
     \<and> map (\<lambda>r. take 8 (drop 2 r)) (recordSlices (sectorAt isoArr 18) 0)
         = map bothEndian32 (18 # 18 # planExtents userData metaData)
     \<and> map (\<lambda>r. take 8 (drop 10 r)) (recordSlices (sectorAt isoArr 18) 0)
         = map bothEndian32 [2048, 2048, length (TextEncoder_encode metaData),
                             length (TextEncoder_encode userData)]
     \<and> map (\<lambda>r. take 4 (drop 28 r)) (recordSlices (sectorAt isoArr 18) 0)
         = map bothEndian16 [1, 1, 1, 1])"
proof -
  let ?em = "TextEncoder_encode metaData" and ?eu = "TextEncoder_encode userData"
  let ?T = "planTotalSectors userData metaData"
  obtain isoArr where i: "makeCloudInitIso userData metaData = Some isoArr"
    and lp: "length (sectorAt isoArr 16) = 2048"
    and h: "take 156 (sectorAt isoArr 16) = pvdHead ?T"
    and e: "take 34 (drop 156 (sectorAt isoArr 16)) = recordBytes [0] True 18 S"
    and rd: "sectorAt isoArr 18 = rootDirBytes (length ?em) (planExtents userData metaData ! 1)
           (length ?eu)"
    using makeCloudInitIso_image [of userData metaData] by blast
  let ?P = "sectorAt isoArr 16"
  have "take 8 (drop 80 ?P) = bothEndian32 ?T"
    using slice_of_take [OF h, of 80 8] by (simp add: pvdHead_fields)
  moreover have "take 4 (drop 120 ?P) = bothEndian16 1"
    using slice_of_take [OF h, of 120 4] by (simp add: pvdHead_fields)
  moreover have "take 4 (drop 124 ?P) = bothEndian16 1"
    using slice_of_take [OF h, of 124 4] by (simp add: pvdHead_fields)
  moreover have "take 4 (drop 128 ?P) = bothEndian16 2048"
    using slice_of_take [OF h, of 128 4] by (simp add: pvdHead_fields)
  moreover have "u16le ?P 128 = 2048"
    using slice_of_take [OF h, of 128 2] u16le_le16 [of 128 ?P 2048] lp
    by (simp add: pvdHead_fields)
  moreover have "u16be ?P 130 = 2048"
    using slice_of_take [OF h, of 130 2] u16be_be16 [of 130 ?P 2048] lp
    by (simp add: pvdHead_fields)
  moreover have "take 8 (drop (156 + 2) ?P) = bothEndian32 18"
    using slice_of_slice [OF e, of 2 8] by (simp add: recordBytes_fields)
  moreover have "take 8 (drop (156 + 10) ?P) = bothEndian32 2048"
    using slice_of_slice [OF e, of 10 8] by (simp add: recordBytes_fields S_def)
  moreover have "take 4 (drop (156 + 28) ?P) = bothEndian16 1"
    using slice_of_slice [OF e, of 28 4] by (simp add: recordBytes_fields)
  moreover have "u32le ?P (156 + 2) = 18"
    using slice_of_slice [OF e, of 2 4] u32le_le32 [of "156 + 2" ?P 18] lp
    by (simp add: recordBytes_fields)
  moreover have "u32be ?P (156 + 6) = 18"
  proof -
    have "take 4 (drop 6 (recordBytes [0] True 18 S)) = be32 18"
      by (simp add: recordBytes_def u32b_bothEndian bothEndian32_def)
    then show ?thesis
      using slice_of_slice [OF e, of 6 4] u32be_be32 [of "156 + 6" ?P 18] lp by simp
  qed
  moreover have "map (\<lambda>r. take 8 (drop 2 r)) (recordSlices (sectorAt isoArr 18) 0)
         = map bothEndian32 (18 # 18 # planExtents userData metaData)"
    by (simp add: rd recordSlices_rootDirBytes recordBytes_fields plan_eq)
  moreover have "map (\<lambda>r. take 8 (drop 10 r)) (recordSlices (sectorAt isoArr 18) 0)
         = map bothEndian32 [2048, 2048, length ?em, length ?eu]"
    by (simp add: rd recordSlices_rootDirBytes recordBytes_fields S_def)
  moreover have "map (\<lambda>r. take 4 (drop 28 r)) (recordSlices (sectorAt isoArr 18) 0)
         = map bothEndian16 [1, 1, 1, 1]"
    by (simp add: rd recordSlices_rootDirBytes recordBytes_fields)
  ultimately show ?thesis
    using i u32b_bothEndian [of v] u16b_bothEndian [of v] by blast
qed

text \<open>
  C4. For every pair of inputs (strings of the runtime) the length of the image is a
  multiple of 2048, exceeds 16 sectors, and is 2048 times the little-endian 32-bit number
  at offset 80 of the sector at LBA 16, which is the number of sectors \<open>totalSectors\<close>.
\<close>

theorem volume_space_size:
  assumes "stringFits userData" and "stringFits metaData"
  shows "volumeSizeConsistent userData metaData
     \<and> (\<exists>isoArr. makeCloudInitIso userData metaData = Some isoArr
          \<and> length isoArr mod 2048 = 0 \<and> 16 * 2048 < length isoArr
          \<and> u32le (sectorAt isoArr 16) 80 * 2048 = length isoArr
          \<and> u32le (sectorAt isoArr 16) 80 = planTotalSectors userData metaData)"
proof -
  let ?T = "planTotalSectors userData metaData"
  obtain isoArr where i: "makeCloudInitIso userData metaData = Some isoArr"
    and l: "length isoArr = ?T * 2048"
    and lp: "length (sectorAt isoArr 16) = 2048"
    and h: "take 156 (sectorAt isoArr 16) = pvdHead ?T"
    using makeCloudInitIso_image [of userData metaData] by blast
  have small: "?T < 4294967296"
    using assms by (rule stringFits_total)
  have "u32le (sectorAt isoArr 16) 80 = ?T mod 4294967296"
    using slice_of_take [OF h, of 80 4] u32le_le32 [of 80 "sectorAt isoArr 16" ?T] lp
    by (simp add: pvdHead_fields)
  then have v: "u32le (sectorAt isoArr 16) 80 = ?T"
    using small by simp
  have big: "16 * 2048 < length isoArr"
    unfolding l by (simp add: plan_eq)
  have m: "length isoArr mod 2048 = 0"
    unfolding l by simp
  have e: "u32le (sectorAt isoArr 16) 80 * 2048 = length isoArr"
    unfolding v l by (rule refl)
  have c: "volumeSizeConsistent userData metaData"
    using big m e by (simp add: volumeSizeConsistent_def i S_def)
  have "\<exists>isoArr. makeCloudInitIso userData metaData = Some isoArr
          \<and> length isoArr mod 2048 = 0 \<and> 16 * 2048 < length isoArr
          \<and> u32le (sectorAt isoArr 16) 80 * 2048 = length isoArr
          \<and> u32le (sectorAt isoArr 16) 80 = planTotalSectors userData metaData"
    by (rule exI [of _ isoArr]) (intro conjI i m big e v)
  with c show ?thesis
    by (rule conjI)
qed

theorem volume_space_size_witness:
  "stringFits (js_str ''a'') \<and> stringFits []
   \<and> volumeSizeConsistent (js_str ''a'') []
   \<and> (\<exists>isoArr. makeCloudInitIso (js_str ''a'') [] = Some isoArr
        \<and> u32le (sectorAt isoArr 16) 80 * 2048 = length isoArr
        \<and> u32le (sectorAt isoArr 16) 80 = 21)"
proof -
  have f: "stringFits (js_str ''a'')" "stringFits []"
    by (simp_all add: stringFits_def js_str_def)
  have t: "planTotalSectors (js_str ''a'') [] = 21"
    by (simp add: plan_eq sectorCount_eq js_str_def)
  show ?thesis
    using volume_space_size [OF f] f unfolding t by auto
qed

text \<open>
  C1. For every pair of inputs (strings of the runtime), reading USER-DATA and META-DATA
  back from the image, each by the extent and the data length recorded in its record of
  the root directory, gives exactly the encoding of the user-data and of the meta-data.
\<close>

theorem round_trip:
  assumes "stringFits userData" and "stringFits metaData"
  shows "roundTrip userData metaData
     \<and> (\<exists>isoArr. makeCloudInitIso userData metaData = Some isoArr
          \<and> readFile isoArr (js_str ''USER-DATA'') = Some (TextEncoder_encode userData)
          \<and> readFile isoArr (js_str ''META-DATA'') = Some (TextEncoder_encode metaData))"
proof -
  let ?em = "TextEncoder_encode metaData" and ?eu = "TextEncoder_encode userData"
  have su: "length ?eu < 4294967296" and sm: "length ?em < 4294967296"
    using assms by (simp_all add: stringFits_enc)
  define X where "X = planExtents userData metaData ! 1"
  obtain isoArr where i: "makeCloudInitIso userData metaData = Some isoArr"
    and rd: "sectorAt isoArr 18 = rootDirBytes (length ?em) X (length ?eu)"
    and d: "drop 38912 isoArr =
           ?em @ replicate (sectorCount (length ?em) * 2048 - length ?em) 0
           @ ?eu @ replicate (sectorCount (length ?eu) * 2048 - length ?eu) 0"
    using makeCloudInitIso_image [of userData metaData] unfolding X_def by blast
  have p: "take (length ?em) (drop (19 * 2048) isoArr) = ?em"
     "take (length ?eu) (drop ((19 + sectorCount (length ?em)) * 2048) isoArr) = ?eu"
    using payload_slices(1,2) [OF d sectorCount_fits sectorCount_fits] by simp_all
  have x: "X mod 4294967296 = 19 + sectorCount (length ?em)"
    using sectorCount_le [OF sm] by (simp add: X_def plan_eq)
  have rm: "readFile isoArr (js_str ''META-DATA'') = Some ?em"
    using readFile_rootDirBytes(1) [OF rd] sm p(1) by (simp add: S_def)
  have ru: "readFile isoArr (js_str ''USER-DATA'') = Some ?eu"
    using readFile_rootDirBytes(2) [OF rd] su p(2) x by (simp add: S_def add_mult_distrib)
  have c: "roundTrip userData metaData"
    by (simp add: roundTrip_def i rm ru)
  have "\<exists>isoArr. makeCloudInitIso userData metaData = Some isoArr
          \<and> readFile isoArr (js_str ''USER-DATA'') = Some ?eu
          \<and> readFile isoArr (js_str ''META-DATA'') = Some ?em"
    by (rule exI [of _ isoArr]) (intro conjI i ru rm)
  with c show ?thesis
    by (rule conjI)
qed

theorem round_trip_witness:
  "stringFits (js_str ''hi'') \<and> stringFits (js_str ''x'')
   \<and> roundTrip (js_str ''hi'') (js_str ''x'')"
proof -
  have f: "stringFits (js_str ''hi'')" "stringFits (js_str ''x'')"
    by (simp_all add: stringFits_def js_str_def)
  show ?thesis
    using round_trip [OF f] f by simp
qed

text \<open>
  C2, as amended. The image built from the user-data "#cloud-config", newline,
  "hostname: myvm", newline and the meta-data "instance-id: myvm", newline has a root
  directory with the entries dot, dotdot, META-DATA with data length 18 and USER-DATA with
  data length 29, in that order; the extents of the two files are at LBA 19 or later, and
  the length of the image is a multiple of 2048.
\<close>

theorem end_to_end_example:
  "\<exists>isoArr.
     makeCloudInitIso (js_str ''#cloud-config\<newline>hostname: myvm\<newline>'')
       (js_str ''instance-id: myvm\<newline>'') = Some isoArr
     \<and> parseRootDir isoArr 18 =
         [\<lparr>name = [0], extentLba = 18, dataLen = 2048, isDir = True\<rparr>,
          \<lparr>name = [1], extentLba = 18, dataLen = 2048, isDir = True\<rparr>,
          \<lparr>name = TextEncoder_encode (js_str ''META-DATA''), extentLba = 19, dataLen = 18,
            isDir = False\<rparr>,
          \<lparr>name = TextEncoder_encode (js_str ''USER-DATA''), extentLba = 20, dataLen = 29,
            isDir = False\<rparr>]
     \<and> listedFiles (js_str ''#cloud-config\<newline>hostname: myvm\<newline>'')
           (js_str ''instance-id: myvm\<newline>'')
         = [(TextEncoder_encode (js_str ''META-DATA''), 18),
            (TextEncoder_encode (js_str ''USER-DATA''), 29)]
     \<and> list_all (\<lambda>e. 19 \<le> extentLba e) (filter (\<lambda>e. \<not> isDir e) (parseRootDir isoArr 18))
     \<and> length isoArr = 21 * 2048
     \<and> length isoArr mod 2048 = 0"
proof -
  let ?u = "js_str ''#cloud-config\<newline>hostname: myvm\<newline>''"
  let ?m = "js_str ''instance-id: myvm\<newline>''"
  have lu: "length (TextEncoder_encode ?u) = 29" and lm: "length (TextEncoder_encode ?m) = 18"
    by (simp_all add: js_str_def)
  obtain isoArr where i: "makeCloudInitIso ?u ?m = Some isoArr"
    and l: "length isoArr = planTotalSectors ?u ?m * 2048"
    and rd: "sectorAt isoArr 18 = rootDirBytes (length (TextEncoder_encode ?m))
           (planExtents ?u ?m ! 1) (length (TextEncoder_encode ?u))"
    using makeCloudInitIso_image [of ?u ?m] by blast
  have T: "planTotalSectors ?u ?m = 21" and X: "planExtents ?u ?m ! 1 = 20"
    by (simp_all add: plan_eq lu lm sectorCount_eq)
  have p: "parseRootDir isoArr 18 =
         [\<lparr>name = [0], extentLba = 18, dataLen = 2048, isDir = True\<rparr>,
          \<lparr>name = [1], extentLba = 18, dataLen = 2048, isDir = True\<rparr>,
          \<lparr>name = TextEncoder_encode (js_str ''META-DATA''), extentLba = 19, dataLen = 18,
            isDir = False\<rparr>,
          \<lparr>name = TextEncoder_encode (js_str ''USER-DATA''), extentLba = 20, dataLen = 29,
            isDir = False\<rparr>]"
    unfolding parseRootDir_def rd lu lm X by (simp add: parseLoop_rootDirBytes)
  have f1: "list_all (\<lambda>e. 19 \<le> extentLba e) (filter (\<lambda>e. \<not> isDir e) (parseRootDir isoArr 18))"
    unfolding p by simp
  have f2: "listedFiles ?u ?m
         = [(TextEncoder_encode (js_str ''META-DATA''), 18),
            (TextEncoder_encode (js_str ''USER-DATA''), 29)]"
    using i p by (simp add: listedFiles_def)
  have f3: "length isoArr = 21 * 2048" and f4: "length isoArr mod 2048 = 0"
    unfolding l T by simp_all
  show ?thesis
    by (rule exI [of _ isoArr]) (intro conjI i p f1 f2 f3 f4)
qed

theorem end_to_end_example_counterexample:
  "listedFiles (js_str ''#cloud-config\<newline>hostname: myvm\<newline>'')
       (js_str ''instance-id: myvm\<newline>'')
     \<noteq> [(TextEncoder_encode (js_str ''META-DATA''), 19),
         (TextEncoder_encode (js_str ''USER-DATA''), 29)]"
proof -
  let ?u = "js_str ''#cloud-config\<newline>hostname: myvm\<newline>''"
  let ?m = "js_str ''instance-id: myvm\<newline>''"
  have lm: "length (TextEncoder_encode ?m) = 18"
    by (simp add: js_str_def)
  obtain isoArr where i: "makeCloudInitIso ?u ?m = Some isoArr"
    and rd: "sectorAt isoArr 18 = rootDirBytes (length (TextEncoder_encode ?m))
           (planExtents ?u ?m ! 1) (length (TextEncoder_encode ?u))"
    using makeCloudInitIso_image [of ?u ?m] by blast
  have "parseRootDir isoArr 18 = parseLoop (rootDirBytes 18 (planExtents ?u ?m ! 1)
           (length (TextEncoder_encode ?u))) 0"
    unfolding parseRootDir_def rd lm by (rule refl)
  then show ?thesis
    using i by (simp add: listedFiles_def parseLoop_rootDirBytes)
qed

text \<open>
  C5. For every pair of inputs, walking the sector at LBA 18 from offset 0, each record
  taking as many bytes as its first byte says, until a zero byte, gives exactly four
  records, packed back to back: dot, dotdot, META-DATA and USER-DATA in this order. The
  length of each is 33 plus the length of its name, plus 1 when that is even, and so is
  even. \<open>dirRecord\<close> gives a record of that length for any name, with a zero pad byte after
  a name of even length.
\<close>

theorem root_directory_records:
  "(\<exists>isoArr. makeCloudInitIso userData metaData = Some isoArr
      \<and> map name (parseRootDir isoArr 18)
          = [[0], [1], TextEncoder_encode (js_str ''META-DATA''),
             TextEncoder_encode (js_str ''USER-DATA'')]
      \<and> map isDir (parseRootDir isoArr 18) = [True, True, False, False]
      \<and> map (\<lambda>r. take (unat (r ! 32)) (drop 33 r)) (recordSlices (sectorAt isoArr 18) 0)
          = [[0], [1], TextEncoder_encode (js_str ''META-DATA''),
             TextEncoder_encode (js_str ''USER-DATA'')]
      \<and> map length (recordSlices (sectorAt isoArr 18) 0) = [34, 34, 42, 42]
      \<and> map (\<lambda>r. unat (r ! 0)) (recordSlices (sectorAt isoArr 18) 0)
          = map length (recordSlices (sectorAt isoArr 18) 0)
      \<and> map length (recordSlices (sectorAt isoArr 18) 0)
          = map (\<lambda>r. 33 + unat (r ! 32) + (if unat (r ! 32) mod 2 = 0 then 1 else 0))
              (recordSlices (sectorAt isoArr 18) 0)
      \<and> map (\<lambda>r. length r mod 2) (recordSlices (sectorAt isoArr 18) 0) = [0, 0, 0, 0]
      \<and> concat (recordSlices (sectorAt isoArr 18) 0) = take 152 (sectorAt isoArr 18)
      \<and> sectorAt isoArr 18 ! 152 = 0)
   \<and> (\<exists>r. dirRecord nm d e l = Some r
         \<and> length r = 33 + length nm + (if length nm mod 2 = 0 then 1 else 0)
         \<and> length r mod 2 = 0
         \<and> take (length nm) (drop 33 r) = nm
         \<and> drop (33 + length nm) r = replicate (if length nm mod 2 = 0 then 1 else 0) 0)"
proof
  let ?em = "TextEncoder_encode metaData" and ?eu = "TextEncoder_encode userData"
  let ?R0 = "recordBytes [0] True 18 S"
  let ?R1 = "recordBytes [1] True 18 S"
  let ?R2 = "recordBytes (TextEncoder_encode (js_str ''META-DATA'')) False 19 (length ?em)"
  define X where "X = planExtents userData metaData ! 1"
  let ?R3 = "recordBytes (TextEncoder_encode (js_str ''USER-DATA'')) False X (length ?eu)"
  obtain isoArr where i: "makeCloudInitIso userData metaData = Some isoArr"
    and rd: "sectorAt isoArr 18 = rootDirBytes (length ?em) X (length ?eu)"
    using makeCloudInitIso_image [of userData metaData] unfolding X_def by blast
  have sl: "recordSlices (sectorAt isoArr 18) 0 = [?R0, ?R1, ?R2, ?R3]"
    unfolding rd by (rule recordSlices_rootDirBytes)
  have len: "length ?R0 = 34" "length ?R1 = 34" "length ?R2 = 42" "length ?R3 = 42"
    by (simp_all add: length_recordBytes enc_META enc_USER)
  have b0: "unat (?R0 ! 0) = 34" "unat (?R1 ! 0) = 34" "unat (?R2 ! 0) = 42" "unat (?R3 ! 0) = 42"
    by (simp_all add: recordBytes_fields(1) len)
  have b32: "unat (?R0 ! 32) = 1" "unat (?R1 ! 32) = 1" "unat (?R2 ! 32) = 9" "unat (?R3 ! 32) = 9"
    by (simp_all add: recordBytes_fields(8) enc_META enc_USER)
  have nm: "take 1 (drop 33 ?R0) = [0]" "take 1 (drop 33 ?R1) = [1]"
      "take 9 (drop 33 ?R2) = TextEncoder_encode (js_str ''META-DATA'')"
      "take 9 (drop 33 ?R3) = TextEncoder_encode (js_str ''USER-DATA'')"
    by (simp_all add: recordBytes_def u32b_bytes u16b_bytes enc_META enc_USER)
  have g1: "map name (parseRootDir isoArr 18)
          = [[0], [1], TextEncoder_encode (js_str ''META-DATA''),
             TextEncoder_encode (js_str ''USER-DATA'')]"
    and g2: "map isDir (parseRootDir isoArr 18) = [True, True, False, False]"
    by (simp_all add: parseRootDir_def rd parseLoop_rootDirBytes)
  have g3: "map (\<lambda>r. take (unat (r ! 32)) (drop 33 r)) (recordSlices (sectorAt isoArr 18) 0)
          = [[0], [1], TextEncoder_encode (js_str ''META-DATA''),
             TextEncoder_encode (js_str ''USER-DATA'')]"
    unfolding sl using nm by (simp add: b32)
  have g4: "map length (recordSlices (sectorAt isoArr 18) 0) = [34, 34, 42, 42]"
    unfolding sl by (simp add: len)
  have g5: "map (\<lambda>r. unat (r ! 0)) (recordSlices (sectorAt isoArr 18) 0)
          = map length (recordSlices (sectorAt isoArr 18) 0)"
    unfolding sl by (simp add: len b0)
  have g6: "map length (recordSlices (sectorAt isoArr 18) 0)
          = map (\<lambda>r. 33 + unat (r ! 32) + (if unat (r ! 32) mod 2 = 0 then 1 else 0))
              (recordSlices (sectorAt isoArr 18) 0)"
    unfolding sl by (simp add: len b32)
  have g7: "map (\<lambda>r. length r mod 2) (recordSlices (sectorAt isoArr 18) 0) = [0, 0, 0, 0]"
    unfolding sl by (simp add: len)
  have g8: "concat (recordSlices (sectorAt isoArr 18) 0) = take 152 (sectorAt isoArr 18)"
    unfolding sl by (simp add: rd rootDirBytes_def len)
  have g9: "sectorAt isoArr 18 ! 152 = 0"
    unfolding rd by (simp add: rootDirBytes_def nth_append len)
  show "\<exists>isoArr. makeCloudInitIso userData metaData = Some isoArr
      \<and> map name (parseRootDir isoArr 18)
          = [[0], [1], TextEncoder_encode (js_str ''META-DATA''),
             TextEncoder_encode (js_str ''USER-DATA'')]
      \<and> map isDir (parseRootDir isoArr 18) = [True, True, False, False]
      \<and> map (\<lambda>r. take (unat (r ! 32)) (drop 33 r)) (recordSlices (sectorAt isoArr 18) 0)
          = [[0], [1], TextEncoder_encode (js_str ''META-DATA''),
             TextEncoder_encode (js_str ''USER-DATA'')]
      \<and> map length (recordSlices (sectorAt isoArr 18) 0) = [34, 34, 42, 42]
      \<and> map (\<lambda>r. unat (r ! 0)) (recordSlices (sectorAt isoArr 18) 0)
          = map length (recordSlices (sectorAt isoArr 18) 0)
      \<and> map length (recordSlices (sectorAt isoArr 18) 0)
          = map (\<lambda>r. 33 + unat (r ! 32) + (if unat (r ! 32) mod 2 = 0 then 1 else 0))
              (recordSlices (sectorAt isoArr 18) 0)
      \<and> map (\<lambda>r. length r mod 2) (recordSlices (sectorAt isoArr 18) 0) = [0, 0, 0, 0]
      \<and> concat (recordSlices (sectorAt isoArr 18) 0) = take 152 (sectorAt isoArr 18)
      \<and> sectorAt isoArr 18 ! 152 = 0"
    by (rule exI [of _ isoArr]) (intro conjI i g1 g2 g3 g4 g5 g6 g7 g8 g9)
next
  let ?r = "recordBytes nm d e l"
  have k1: "length ?r = 33 + length nm + (if length nm mod 2 = 0 then 1 else 0)"
    by (rule length_recordBytes)
  have k2: "length ?r mod 2 = 0"
    unfolding k1 by presburger
  have k3: "take (length nm) (drop 33 ?r) = nm"
    by (rule recordBytes_fields(9))
  have "drop 33 ?r = nm @ replicate (if length nm mod 2 = 0 then 1 else 0) 0"
    by (simp add: recordBytes_def u32b_bytes u16b_bytes)
  then have "drop (length nm) (drop 33 ?r) = replicate (if length nm mod 2 = 0 then 1 else 0) 0"
    by simp
  then have k4: "drop (33 + length nm) ?r = replicate (if length nm mod 2 = 0 then 1 else 0) 0"
    by (simp add: add.commute)
  show "\<exists>r. dirRecord nm d e l = Some r
         \<and> length r = 33 + length nm + (if length nm mod 2 = 0 then 1 else 0)
         \<and> length r mod 2 = 0
         \<and> take (length nm) (drop 33 r) = nm
         \<and> drop (33 + length nm) r = replicate (if length nm mod 2 = 0 then 1 else 0) 0"
    by (rule exI [of _ ?r]) (intro conjI dirRecord_eq k1 k2 k3 k4)
qed

end
